theory Spec2Isabelle
  imports Main
begin

section \<open>Strings: the character classes and trimming of the host language\<close>

text \<open>
  Strings are \<^typ>\<open>string\<close>; one \<^typ>\<open>char\<close> stands for one code unit in the range
  0..255. The regular expression classes \<open>\s\<close> and \<open>\w\<close> and the whitespace removed by
  \<open>trim\<close>/\<open>trimStart\<close> are given on that range: tab, line feed, vertical tab, form feed,
  carriage return, space and the no-break space are whitespace; letters, digits and the
  underscore are word characters.
\<close>

definition is_space :: "char \<Rightarrow> bool" where
  "is_space c = (let n = (of_char c :: nat) in (9 \<le> n \<and> n \<le> 13) \<or> n = 32 \<or> n = 160)"

definition is_word :: "char \<Rightarrow> bool" where
  "is_word c = (let n = (of_char c :: nat) in
     (48 \<le> n \<and> n \<le> 57) \<or> (65 \<le> n \<and> n \<le> 90) \<or> n = 95 \<or> (97 \<le> n \<and> n \<le> 122))"

definition trimStart :: "string \<Rightarrow> string" where
  "trimStart s = dropWhile is_space s"

definition trimEnd :: "string \<Rightarrow> string" where
  "trimEnd s = rev (dropWhile is_space (rev s))"

definition trim :: "string \<Rightarrow> string" where
  "trim s = trimEnd (trimStart s)"

definition startsWith :: "string \<Rightarrow> string \<Rightarrow> bool" where
  "startsWith s p = (take (length p) s = p)"

section \<open>Template engine: \<open>applyTemplate\<close>\<close>

text \<open>
  A context value as the template engine sees it: the result of the property read
  \<open>(ctx as Record<string, unknown>)[key]\<close>. The fields of \<open>TemplateContext\<close> are optional
  strings; the read of a key that is not a field goes on to the prototype of the object,
  where it finds a built-in function or, under \<open>__proto__\<close>, the prototype object itself.
\<close>

datatype jsval = JUndefined | JNull | JString string | JFunction string | JObject

type_synonym js_record = "string \<Rightarrow> jsval"

text \<open>
  \<open>value == null ? "" : String(value)\<close>. The string form of a built-in function names it;
  that of a plain object is fixed.
\<close>

fun render_value :: "jsval \<Rightarrow> string" where
  "render_value JUndefined = []"
| "render_value JNull = []"
| "render_value (JString s) = s"
| "render_value (JFunction name) = ''function '' @ name @ ''() { [native code] }''"
| "render_value JObject = ''[object Object]''"

text \<open>
  The properties that every plain object inherits from \<open>Object.prototype\<close>, and the read
  of a key on an object with the given own properties.
\<close>

definition object_prototype :: "string \<Rightarrow> jsval" where
  "object_prototype k =
     (if k = ''constructor'' then JFunction ''Object''
      else if k \<in> set [''toString'', ''toLocaleString'', ''valueOf'', ''hasOwnProperty'',
                        ''isPrototypeOf'', ''propertyIsEnumerable'', ''__defineGetter__'',
                        ''__defineSetter__'', ''__lookupGetter__'', ''__lookupSetter__'']
        then JFunction k
      else if k = ''__proto__'' then JObject
      else JUndefined)"

definition read_property :: "(string \<rightharpoonup> jsval) \<Rightarrow> js_record" where
  "read_property own k = (case own k of Some v \<Rightarrow> v | None \<Rightarrow> object_prototype k)"

text \<open>
  One attempt of the pattern \<open>{{\s*(\w+)\s*}}\<close> at the head of the string: the captured
  key and the text after the match. The two classes are disjoint and exclude the braces,
  so the greedy quantifiers have a single way to match and never backtrack.
\<close>

definition match_placeholder :: "string \<Rightarrow> (string \<times> string) option" where
  "match_placeholder s =
     (if startsWith s ''{{'' then
        (let r1 = dropWhile is_space (drop 2 s);
             key = takeWhile is_word r1;
             r3 = dropWhile is_space (dropWhile is_word r1)
         in if key \<noteq> [] \<and> startsWith r3 ''}}'' then Some (key, drop 2 r3) else None)
      else None)"

text \<open>
  \<open>str.replace(/{{\s*(\w+)\s*}}/g, ...)\<close>: scan from the left; at a match emit the
  rendered value and continue after the match, otherwise emit the character and move on
  by one. The emitted value is not scanned again.
\<close>

function applyTemplate :: "string \<Rightarrow> js_record \<Rightarrow> string" where
  "applyTemplate [] ctx = []"
| "applyTemplate (c # cs) ctx =
     (case match_placeholder (c # cs) of
        Some (key, rest) \<Rightarrow> render_value (ctx key) @ applyTemplate rest ctx
      | None \<Rightarrow> c # applyTemplate cs ctx)"
  by pat_completeness auto
termination
proof (relation "measure (\<lambda>(s, ctx). length s)")
  show "wf (measure (\<lambda>(s, ctx :: js_record). length s))"
    by simp
next
  fix c :: char and cs :: string and ctx :: js_record
  show "((cs, ctx), c # cs, ctx) \<in> measure (\<lambda>(s, ctx). length s)"
    by simp
next
  fix c :: char and cs :: string and ctx :: js_record and x2 key rest
  assume m: "match_placeholder (c # cs) = Some x2" and x2: "(key, rest) = x2"
  let ?r1 = "dropWhile is_space (drop 2 (c # cs))"
  let ?r3 = "dropWhile is_space (dropWhile is_word ?r1)"
  from m x2 have st: "startsWith (c # cs) ''{{''" and rest: "rest = drop 2 ?r3"
    by (auto simp: match_placeholder_def Let_def split: if_splits)
  from st have "2 \<le> length (c # cs)"
    by (cases cs) (auto simp: startsWith_def)
  moreover have "length ?r3 \<le> length (drop 2 (c # cs))"
    by (meson length_dropWhile_le order_trans)
  ultimately have "length rest < length (c # cs)"
    using rest by simp
  then show "((rest, ctx), c # cs, ctx) \<in> measure (\<lambda>(s, ctx). length s)"
    by simp
qed

section \<open>Numbers of the configuration\<close>

text \<open>
  A number read from the configuration file, whose format admits \<open>NaN\<close> and the two
  infinities beside the finite values. Finite values are taken to be integers and their
  arithmetic exact. \<open>Math.max\<close>, the product with a constant and the comparison \<open><=\<close> follow
  the host language: \<open>NaN\<close> is contagious and compares false with everything.
\<close>

datatype number = NaN | NegInf | Num int | PosInf

fun Math_max :: "number \<Rightarrow> number \<Rightarrow> number" where
  "Math_max NaN b = NaN"
| "Math_max a NaN = NaN"
| "Math_max PosInf b = PosInf"
| "Math_max a PosInf = PosInf"
| "Math_max NegInf b = b"
| "Math_max a NegInf = a"
| "Math_max (Num x) (Num y) = Num (max x y)"

fun js_times :: "number \<Rightarrow> int \<Rightarrow> number" where
  "js_times NaN k = NaN"
| "js_times (Num x) k = Num (x * k)"
| "js_times PosInf k = (if 0 < k then PosInf else if k < 0 then NegInf else NaN)"
| "js_times NegInf k = (if 0 < k then NegInf else if k < 0 then PosInf else NaN)"

fun js_le :: "number \<Rightarrow> number \<Rightarrow> bool" where
  "js_le NaN b = False"
| "js_le a NaN = False"
| "js_le NegInf b = True"
| "js_le a PosInf = True"
| "js_le (Num x) (Num y) = (x \<le> y)"
| "js_le a b = False"

section \<open>Reply resolver: configuration, context and environment\<close>

datatype ReplyMode = ModeText | ModeCommand

datatype SessionScope = PerSender | Global

record SessionConfig =
  scope :: "SessionScope option"
  resetTriggers :: "string list option"
  idleMinutes :: "number option"
  store :: "string option"
  sessionArgNew :: "string list option"
  sessionArgResume :: "string list option"
  sessionArgBeforeBody :: "bool option"

record ReplyConfig =
  mode :: ReplyMode
  reply_text :: "string option"
  command :: "string list option"
  template :: "string option"
  timeoutSeconds :: "number option"
  bodyPrefix :: "string option"
  session :: "SessionConfig option"

record InboundConfig =
  allowFrom :: "string list option"
  reply :: "ReplyConfig option"

record WarelayConfig =
  inbound :: "InboundConfig option"

record MsgContext =
  Body :: "string option"
  From :: "string option"
  To :: "string option"
  MessageSid :: "string option"

record TemplateContext = MsgContext +
  BodyStripped :: "string option"
  SessionId :: "string option"
  IsNewSession :: "string option"

record SessionEntry =
  sessionId :: string
  updatedAt :: int

type_synonym SessionStore = "string \<rightharpoonup> SessionEntry"

record SpawnResult =
  stdout :: string
  stderr :: string
  code :: "int option"
  signal :: "string option"
  killed :: bool

text \<open>What the resolver reads from an error thrown by the command runner.\<close>

record RunError =
  err_killed :: "bool option"
  err_signal :: "string option"

type_synonym CommandRunner = "string list \<Rightarrow> number \<Rightarrow> RunError + SpawnResult"

text \<open>\<open>opts?.onReplyStart\<close>: absent, or a callback that returns, or one that throws.\<close>

datatype GetReplyOptions = NoCallback | CallbackReturns | CallbackThrows

text \<open>
  What reading and parsing the session file can give (\<open>fs.readFileSync\<close> then
  \<open>JSON5.parse\<close>).
\<close>

datatype StoreFile = ReadThrows | ParseThrows | ParsedNonObject | ParsedObject SessionStore

text \<open>
  Everything \<open>getReplyFromConfig\<close> takes from outside its arguments: the imported helpers
  \<open>normalizeE164\<close> and \<open>CONFIG_DIR\<close> (through \<open>SESSION_STORE_DEFAULT\<close>), the path
  functions, the file system, the two clock reads and the random identifier.
\<close>

record Env =
  SESSION_STORE_DEFAULT :: string
  homedir :: string
  path_resolve :: "string \<Rightarrow> string"
  normalizeE164 :: "string \<Rightarrow> string"
  readStoreFile :: "string \<Rightarrow> StoreFile"
  now_at_check :: int
  now_at_write :: int
  randomUUID :: string
  saveThrows :: bool

datatype thrown = SaveSessionStoreError | OnReplyStartError

datatype outcome = Returned "string option" | Thrown thrown

datatype console_error = ExitCodeError | KilledError | TimedOutError | FailedError

datatype effect =
    LoadSessionStore string
  | SaveSessionStore string SessionStore
  | OnReplyStart
  | CommandRun "string list" number
  | ConsoleError console_error

text \<open>\<open>a ?? b\<close> and the truthiness of an optional string.\<close>

fun nullish :: "'a option \<Rightarrow> 'a \<Rightarrow> 'a" where
  "nullish None d = d"
| "nullish (Some x) d = x"

fun truthy :: "string option \<Rightarrow> bool" where
  "truthy None = False"
| "truthy (Some s) = (s \<noteq> [])"

definition DEFAULT_RESET_TRIGGER :: string where
  "DEFAULT_RESET_TRIGGER = ''/new''"

definition DEFAULT_IDLE_MINUTES :: number where
  "DEFAULT_IDLE_MINUTES = Num 60"

definition resolveStorePath :: "Env \<Rightarrow> string option \<Rightarrow> string" where
  "resolveStorePath env st =
     (if \<not> truthy st then SESSION_STORE_DEFAULT env
      else if startsWith (the st) ''~'' then path_resolve env (homedir env @ drop 1 (the st))
      else path_resolve env (the st))"

fun loadSessionStore :: "StoreFile \<Rightarrow> SessionStore" where
  "loadSessionStore (ParsedObject m) = m"
| "loadSessionStore ReadThrows = Map.empty"
| "loadSessionStore ParseThrows = Map.empty"
| "loadSessionStore ParsedNonObject = Map.empty"

definition deriveSessionKey :: "Env \<Rightarrow> SessionScope \<Rightarrow> MsgContext \<Rightarrow> string" where
  "deriveSessionKey env sc ctx =
     (if sc = Global then ''global''
      else (let from = (if truthy (From ctx) then normalizeE164 env (the (From ctx)) else [])
            in if from \<noteq> [] then from else ''unknown''))"

text \<open>
  The view \<open>ctx as Record<string, unknown>\<close> of a template context. The object is built by
  a literal that lists its seven fields, so each of them is an own property, undefined when
  it has no value; every other key is read from the prototype.
\<close>

fun field_value :: "string option \<Rightarrow> jsval" where
  "field_value None = JUndefined"
| "field_value (Some s) = JString s"

definition own_fields :: "TemplateContext \<Rightarrow> (string \<rightharpoonup> jsval)" where
  "own_fields c =
     [''Body'' \<mapsto> field_value (Body c), ''From'' \<mapsto> field_value (From c),
      ''To'' \<mapsto> field_value (To c), ''MessageSid'' \<mapsto> field_value (MessageSid c),
      ''BodyStripped'' \<mapsto> field_value (BodyStripped c),
      ''SessionId'' \<mapsto> field_value (SessionId c),
      ''IsNewSession'' \<mapsto> field_value (IsNewSession c)]"

definition as_record :: "TemplateContext \<Rightarrow> js_record" where
  "as_record c = read_property (own_fields c)"

section \<open>Reply resolver: \<open>getReplyFromConfig\<close>\<close>

text \<open>The limits and defaults computed at the head of the function.\<close>

definition effective_timeoutSeconds :: "ReplyConfig option \<Rightarrow> number" where
  "effective_timeoutSeconds r =
     Math_max (nullish (Option.bind r timeoutSeconds) (Num 600)) (Num 1)"

definition effective_resetTriggers :: "SessionConfig option \<Rightarrow> string list" where
  "effective_resetTriggers sessionCfg =
     (case Option.bind sessionCfg resetTriggers of
        None \<Rightarrow> [DEFAULT_RESET_TRIGGER]
      | Some ts \<Rightarrow> if ts \<noteq> [] then ts else [DEFAULT_RESET_TRIGGER])"

definition effective_idleMinutes :: "SessionConfig option \<Rightarrow> number" where
  "effective_idleMinutes sessionCfg =
     Math_max (nullish (Option.bind sessionCfg idleMinutes) DEFAULT_IDLE_MINUTES) (Num 1)"

text \<open>
  The loop over \<open>resetTriggers\<close>: the flag \<open>isNewSession\<close> and the value of
  \<open>bodyStripped\<close> when the loop ends.
\<close>

fun scan_resetTriggers :: "string list \<Rightarrow> string \<Rightarrow> bool \<times> string option" where
  "scan_resetTriggers [] trimmedBody = (False, None)"
| "scan_resetTriggers (trigger # rest) trimmedBody =
     (if trigger = [] then scan_resetTriggers rest trimmedBody
      else if trimmedBody = trigger then (True, Some [])
      else if startsWith trimmedBody (trigger @ '' '')
        then (True, Some (trimStart (drop (length trigger) trimmedBody)))
      else scan_resetTriggers rest trimmedBody)"

text \<open>
  The body of \<open>if (sessionCfg) { ... }\<close> up to the assignment into the store: the three
  session variables and the store handed to \<open>saveSessionStore\<close>.
\<close>

record SessionVars =
  var_sessionId :: "string option"
  var_isNewSession :: bool
  var_bodyStripped :: "string option"

definition freshEntry :: "Env \<Rightarrow> SessionConfig \<Rightarrow> SessionEntry option \<Rightarrow> bool" where
  "freshEntry env sessionCfg entry =
     (case entry of
        None \<Rightarrow> False
      | Some e \<Rightarrow>
          js_le (Num (now_at_check env - updatedAt e))
                (js_times (effective_idleMinutes (Some sessionCfg)) 60000))"

definition resolve_session ::
  "Env \<Rightarrow> SessionConfig \<Rightarrow> MsgContext \<Rightarrow> SessionVars \<times> SessionStore" where
  "resolve_session env sessionCfg ctx =
     (let trimmedBody = trim (nullish (Body ctx) []);
          scanned = scan_resetTriggers (effective_resetTriggers (Some sessionCfg)) trimmedBody;
          sessionKey = deriveSessionKey env (nullish (scope sessionCfg) PerSender) ctx;
          st = loadSessionStore (readStoreFile env (resolveStorePath env (store sessionCfg)));
          entry = st sessionKey;
          reuse = (\<not> fst scanned \<and> freshEntry env sessionCfg entry);
          sid = (if reuse then sessionId (the entry) else randomUUID env)
      in (\<lparr>var_sessionId = Some sid,
           var_isNewSession = (if reuse then fst scanned else True),
           var_bodyStripped = snd scanned\<rparr>,
          st(sessionKey \<mapsto> \<lparr>sessionId = sid, updatedAt = now_at_write env\<rparr>)))"

text \<open>
  The session part of the function with its effects: the store is loaded, then saved;
  the flag tells whether \<open>await saveSessionStore\<close> threw.
\<close>

definition session_phase ::
  "Env \<Rightarrow> SessionConfig option \<Rightarrow> MsgContext \<Rightarrow> SessionVars \<times> effect list \<times> bool" where
  "session_phase env sessionCfg ctx =
     (case sessionCfg of
        None \<Rightarrow>
          (\<lparr>var_sessionId = None, var_isNewSession = False, var_bodyStripped = None\<rparr>, [], False)
      | Some sc \<Rightarrow>
          (let storePath = resolveStorePath env (store sc);
               res = resolve_session env sc ctx
           in (fst res,
               [LoadSessionStore storePath, SaveSessionStore storePath (snd res)],
               saveThrows env)))"

text \<open>\<open>sessionCtx\<close>, \<open>bodyPrefix\<close>, \<open>prefixedBody\<close> and \<open>templatingCtx\<close>.\<close>

definition sessionCtx_of :: "MsgContext \<Rightarrow> SessionVars \<Rightarrow> TemplateContext" where
  "sessionCtx_of ctx sv =
     \<lparr>Body = Body ctx, From = From ctx, To = To ctx, MessageSid = MessageSid ctx,
      BodyStripped = (case var_bodyStripped sv of None \<Rightarrow> Body ctx | Some b \<Rightarrow> Some b),
      SessionId = var_sessionId sv,
      IsNewSession = Some (if var_isNewSession sv then ''true'' else ''false'')\<rparr>"

definition templatingCtx_of :: "ReplyConfig option \<Rightarrow> TemplateContext \<Rightarrow> TemplateContext" where
  "templatingCtx_of r sessionCtx =
     (let prefixTemplate = Option.bind r bodyPrefix;
          prefix = (if truthy prefixTemplate
                    then applyTemplate (the prefixTemplate) (as_record sessionCtx) else []);
          unprefixed = (case BodyStripped sessionCtx of
                          None \<Rightarrow> Body sessionCtx | Some b \<Rightarrow> Some b);
          prefixedBody = (if prefix \<noteq> [] then Some (prefix @ nullish unprefixed [])
                          else unprefixed)
      in sessionCtx\<lparr>Body := prefixedBody, BodyStripped := prefixedBody\<rparr>)"

text \<open>The allow-list test: \<open>true\<close> when the function returns at the allow-list.\<close>

definition strip_whatsapp :: "string \<Rightarrow> string" where
  "strip_whatsapp s = (if startsWith s ''whatsapp:'' then drop 9 s else s)"

definition blocked_by_allowFrom :: "WarelayConfig \<Rightarrow> MsgContext \<Rightarrow> bool" where
  "blocked_by_allowFrom cfg ctx =
     (case Option.bind (inbound cfg) allowFrom of
        None \<Rightarrow> False
      | Some allowed \<Rightarrow>
          allowed \<noteq> [] \<and> strip_whatsapp (nullish (From ctx) []) \<notin> set allowed)"

text \<open>The argument vector of command mode.\<close>

definition build_argv :: "ReplyConfig \<Rightarrow> TemplateContext \<Rightarrow> bool \<Rightarrow> string list" where
  "build_argv rp templatingCtx isNewSession =
     (let rendered = map (\<lambda>part. applyTemplate part (as_record templatingCtx))
                         (nullish (command rp) []);
          templatePrefix = (if truthy (template rp)
                            then applyTemplate (the (template rp)) (as_record templatingCtx)
                            else []);
          argv = (if templatePrefix \<noteq> [] \<and> rendered \<noteq> []
                  then hd rendered # templatePrefix # tl rendered else rendered)
      in case session rp of
           None \<Rightarrow> argv
         | Some sc \<Rightarrow>
             (let sessionArgList =
                    map (\<lambda>part. applyTemplate part (as_record templatingCtx))
                        (if isNewSession
                         then nullish (sessionArgNew sc) [''--session-id'', ''{{SessionId}}'']
                         else nullish (sessionArgResume sc) [''--resume'', ''{{SessionId}}'']);
                  insertBeforeBody = nullish (sessionArgBeforeBody sc) True;
                  insertAt = (if insertBeforeBody \<and> length argv > 1
                              then length argv - 1 else length argv)
              in if sessionArgList \<noteq> []
                 then take insertAt argv @ sessionArgList @ drop insertAt argv
                 else argv))"

text \<open>
  The \<open>try\<close>/\<open>catch\<close> around the command runner: the value returned and what is written
  with \<open>console.error\<close>.
\<close>

definition command_reply :: "RunError + SpawnResult \<Rightarrow> string option \<times> effect list" where
  "command_reply ended =
     (case ended of
        Inr res \<Rightarrow>
          (let trimmed = trim (stdout res)
           in if nullish (code res) 0 \<noteq> 0 then (None, [ConsoleError ExitCodeError])
              else if killed res \<and> \<not> truthy (signal res) then (None, [ConsoleError KilledError])
              else (if trimmed \<noteq> [] then Some trimmed else None, []))
      | Inl err \<Rightarrow>
          (if err_killed err = Some True \<or> err_signal err = Some ''SIGKILL''
           then (None, [ConsoleError TimedOutError])
           else (None, [ConsoleError FailedError])))"

text \<open>The local \<open>onReplyStart\<close>: what it does, and whether it threw.\<close>

fun onReplyStart :: "GetReplyOptions \<Rightarrow> effect list \<times> bool" where
  "onReplyStart NoCallback = ([], False)"
| "onReplyStart CallbackReturns = ([OnReplyStart], False)"
| "onReplyStart CallbackThrows = ([OnReplyStart], True)"

text \<open>The function from \<open>if (!reply)\<close> to its end.\<close>

definition reply_phase ::
  "GetReplyOptions \<Rightarrow> ReplyConfig option \<Rightarrow> TemplateContext \<Rightarrow> bool \<Rightarrow> number \<Rightarrow> CommandRunner
     \<Rightarrow> outcome \<times> effect list" where
  "reply_phase opts r templatingCtx isNewSession timeoutMs commandRunner =
     (case r of
        None \<Rightarrow> (Returned None, [])
      | Some rp \<Rightarrow>
          if mode rp = ModeText \<and> truthy (reply_text rp) then
            (if snd (onReplyStart opts) then (Thrown OnReplyStartError, fst (onReplyStart opts))
             else (Returned (Some (applyTemplate (the (reply_text rp)) (as_record templatingCtx))),
                   fst (onReplyStart opts)))
          else if mode rp = ModeCommand \<and> nullish (command rp) [] \<noteq> [] then
            (if snd (onReplyStart opts) then (Thrown OnReplyStartError, fst (onReplyStart opts))
             else (let finalArgv = build_argv rp templatingCtx isNewSession;
                       answered = command_reply (commandRunner finalArgv timeoutMs)
                   in (Returned (fst answered),
                       fst (onReplyStart opts) @ [CommandRun finalArgv timeoutMs] @ snd answered)))
          else (Returned None, []))"

definition getReplyFromConfig ::
  "Env \<Rightarrow> MsgContext \<Rightarrow> GetReplyOptions \<Rightarrow> WarelayConfig \<Rightarrow> CommandRunner
     \<Rightarrow> outcome \<times> effect list" where
  "getReplyFromConfig env ctx opts cfg commandRunner =
     (let r = Option.bind (inbound cfg) reply;
          timeoutMs = js_times (effective_timeoutSeconds r) 1000;
          sess = session_phase env (Option.bind r session) ctx;
          sv = fst sess;
          session_effects = fst (snd sess)
      in if snd (snd sess) then (Thrown SaveSessionStoreError, session_effects)
         else if blocked_by_allowFrom cfg ctx then (Returned None, session_effects)
         else (let templatingCtx = templatingCtx_of r (sessionCtx_of ctx sv);
                   replied = reply_phase opts r templatingCtx (var_isNewSession sv)
                                         timeoutMs commandRunner
               in (fst replied, session_effects @ snd replied)))"

section \<open>Command runner: \<open>runCommandWithTimeout\<close>\<close>

text \<open>
  The function registers handlers on a spawned child and a timer. The child is given by
  what it does when left alone (its events in the order they arrive, each with its time in
  milliseconds after the spawn) and by what still arrives once \<open>SIGKILL\<close> has been
  delivered to it: the events after the kill and, when none of them ends the child, the
  exit code and signal of the \<open>close\<close> event that follows them.
\<close>

datatype child_event =
    StdoutData string
  | StderrData string
  | ErrorEvent RunError
  | CloseEvent "int option" "string option"

record ChildProcess =
  events :: "(int \<times> child_event) list"
  events_after_kill :: "child_event list"
  close_after_kill :: "int option \<times> string option"

text \<open>
  \<open>setTimeout\<close> of the runtime: a delay that is not a number within \<open>1 .. 2^31 - 1\<close> is
  replaced by 1.
\<close>

definition setTimeout_delay :: "number \<Rightarrow> int" where
  "setTimeout_delay ms =
     (case ms of Num n \<Rightarrow> if 1 \<le> n \<and> n \<le> 2147483647 then n else 1 | _ \<Rightarrow> 1)"

text \<open>
  The handlers after the timer has killed the child, with \<open>child.killed\<close> true: they
  stay registered until the promise settles, so data that still arrives is appended; the
  first \<open>error\<close> rejects and the first \<open>close\<close> resolves.
\<close>

fun after_kill ::
  "child_event list \<Rightarrow> int option \<times> string option \<Rightarrow> string \<Rightarrow> string \<Rightarrow> RunError + SpawnResult" where
  "after_kill [] closing out err =
     Inr \<lparr>stdout = out, stderr = err, code = fst closing, signal = snd closing, killed = True\<rparr>"
| "after_kill (ev # rest) closing out err =
     (case ev of
        StdoutData d \<Rightarrow> after_kill rest closing (out @ d) err
      | StderrData d \<Rightarrow> after_kill rest closing out (err @ d)
      | ErrorEvent e \<Rightarrow> Inl e
      | CloseEvent c s \<Rightarrow>
          Inr \<lparr>stdout = out, stderr = err, code = c, signal = s, killed = True\<rparr>)"

text \<open>
  The handlers, run over the events of the child with the accumulated \<open>stdout\<close> and
  \<open>stderr\<close>. An event due before the timer is handled: data is appended, \<open>error\<close> rejects,
  \<open>close\<close> resolves with \<open>killed = child.killed\<close>, still false; both clear the timer and
  settle the promise, so nothing later counts. When the timer comes first (or the child
  never ends) it kills the child and \<open>child.killed\<close> becomes true.
\<close>

fun run_child :: "int \<Rightarrow> (int \<times> child_event) list \<Rightarrow> ChildProcess \<Rightarrow> string \<Rightarrow> string
     \<Rightarrow> RunError + SpawnResult" where
  "run_child delay [] child out err =
     after_kill (events_after_kill child) (close_after_kill child) out err"
| "run_child delay ((at, ev) # rest) child out err =
     (if delay \<le> at
      then after_kill (events_after_kill child) (close_after_kill child) out err
      else (case ev of
              StdoutData d \<Rightarrow> run_child delay rest child (out @ d) err
            | StderrData d \<Rightarrow> run_child delay rest child out (err @ d)
            | ErrorEvent e \<Rightarrow> Inl e
            | CloseEvent c s \<Rightarrow>
                Inr \<lparr>stdout = out, stderr = err, code = c, signal = s, killed = False\<rparr>))"

text \<open>
  \<open>spawn(argv[0], argv.slice(1), ...)\<close> inside the promise: with an empty \<open>argv\<close> the call
  throws and the promise rejects.
\<close>

definition runCommandWithTimeout :: "(string list \<Rightarrow> ChildProcess) \<Rightarrow> CommandRunner" where
  "runCommandWithTimeout spawn argv timeoutMs =
     (if argv = [] then Inl \<lparr>err_killed = None, err_signal = None\<rparr>
      else run_child (setTimeout_delay timeoutMs) (events (spawn argv)) (spawn argv) [] [])"

text \<open>
  What a list of events writes to \<open>stdout\<close> and to \<open>stderr\<close>, and the events of a child
  that are due before a timer.
\<close>

fun stdout_of :: "child_event list \<Rightarrow> string" where
  "stdout_of [] = []"
| "stdout_of (StdoutData d # rest) = d @ stdout_of rest"
| "stdout_of (ev # rest) = stdout_of rest"

fun stderr_of :: "child_event list \<Rightarrow> string" where
  "stderr_of [] = []"
| "stderr_of (StderrData d # rest) = d @ stderr_of rest"
| "stderr_of (ev # rest) = stderr_of rest"

fun is_data :: "child_event \<Rightarrow> bool" where
  "is_data (StdoutData d) = True"
| "is_data (StderrData d) = True"
| "is_data ev = False"

definition due_before :: "int \<Rightarrow> (int \<times> child_event) list \<Rightarrow> child_event list" where
  "due_before delay evs = map snd (takeWhile (\<lambda>timed. fst timed < delay) evs)"

section \<open>Poll ingestor: \<open>monitorTwilio\<close>\<close>

text \<open>
  The fields of a listed message that the monitor reads. A date is its \<open>getTime()\<close>, in
  milliseconds.
\<close>

record MessageInstance =
  sid :: string
  direction :: string
  dateCreated :: "int option"
  m_from :: "string option"
  m_to :: "string option"
  m_body :: "string option"

record MonitorState =
  since :: int
  seen :: "string set"

text \<open>\<open>a.dateCreated?.getTime() ?? 0\<close>, the key of the comparator.\<close>

definition created_ms :: "MessageInstance \<Rightarrow> int" where
  "created_ms m = nullish (dateCreated m) 0"

definition updateSince :: "int \<Rightarrow> int option \<Rightarrow> int" where
  "updateSince current date =
     (case date of None \<Rightarrow> current | Some d \<Rightarrow> if d > current then d else current)"

text \<open>
  The \<open>for\<close> loop over the sorted inbound messages: the state after it and the messages
  handed to \<open>autoReplyIfConfigured\<close>, in the order of the calls.
\<close>

fun dispatch_batch :: "MonitorState \<Rightarrow> MessageInstance list \<Rightarrow> MonitorState \<times> MessageInstance list" where
  "dispatch_batch st [] = (st, [])"
| "dispatch_batch st (m # ms) =
     (if sid m \<in> seen st then dispatch_batch st ms
      else (let st' = \<lparr>since = updateSince (since st) (dateCreated m),
                        seen = insert (sid m) (seen st)\<rparr>;
                later = dispatch_batch st' ms
            in (fst later, m # snd later)))"

text \<open>
  One turn of the \<open>while\<close> loop: the answer of \<open>client.messages.list\<close> is a thrown error
  or the listed messages. The sort of the host language is stable, as \<^const>\<open>sort_key\<close> is.
\<close>

definition poll_once ::
  "MonitorState \<Rightarrow> string + MessageInstance list \<Rightarrow> MonitorState \<times> MessageInstance list" where
  "poll_once st listed =
     (case listed of
        Inl err \<Rightarrow> (st, [])
      | Inr messages \<Rightarrow>
          dispatch_batch st (sort_key created_ms (filter (\<lambda>m. direction m = ''inbound'') messages)))"

text \<open>
  What the loop meets: the answer to its \<open>i\<close>-th listing, asked with \<open>dateSentAfter = since\<close>,
  and whether the interrupt signal has arrived when the \<open>i\<close>-th loop test is made.
\<close>

record PollEnv =
  messages_list :: "nat \<Rightarrow> int \<Rightarrow> string + MessageInstance list"
  sigint_before :: "nat \<Rightarrow> bool"

text \<open>
  The loop, followed for at most \<open>turns\<close> turns (it need not end: \<open>maxIterations\<close> is
  \<open>Infinity\<close>, here \<open>None\<close>, by default). The result is the state reached and, turn by turn,
  the messages dispatched.
\<close>

fun monitor_loop ::
  "PollEnv \<Rightarrow> int option \<Rightarrow> nat \<Rightarrow> nat \<Rightarrow> MonitorState
     \<Rightarrow> MonitorState \<times> MessageInstance list list" where
  "monitor_loop env maxIterations 0 iterations st = (st, [])"
| "monitor_loop env maxIterations (Suc turns) iterations st =
     (if \<not> sigint_before env iterations
         \<and> (case maxIterations of None \<Rightarrow> True | Some n \<Rightarrow> int iterations < n)
      then (let polled = poll_once st (messages_list env iterations (since st));
                later = monitor_loop env maxIterations turns (Suc iterations) (fst polled)
            in (fst later, snd polled # snd later))
      else (st, []))"

definition monitorTwilio ::
  "PollEnv \<Rightarrow> int \<Rightarrow> int \<Rightarrow> int option \<Rightarrow> nat \<Rightarrow> MonitorState \<times> MessageInstance list list" where
  "monitorTwilio env date_now lookbackMinutes maxIterations turns =
     monitor_loop env maxIterations turns 0
       \<lparr>since = date_now - lookbackMinutes * 60000, seen = {}\<rparr>"

section \<open>Webhook bring-up: \<open>updateWebhook\<close>\<close>

text \<open>
  The provider as \<open>updateWebhook\<close> meets it: what each of its calls answers, in the order
  the function makes them. A call either rejects (the \<open>await\<close> throws) or resolves.
\<close>

datatype 'a response = Rejects | Resolves 'a

record SenderWebhook =
  callback_url :: "string option"
  fallback_url :: "string option"

record TwilioApi =
  request_json :: "unit response"
  fetch_after_json :: "SenderWebhook option response"
  request_form :: "unit response"
  fetch_after_form :: "SenderWebhook option response"
  has_channelsSenders :: bool
  helper_update :: "unit response"
  fetch_after_helper :: "SenderWebhook option response"
  findIncomingNumberSid :: "string option"
  phone_update :: "unit response"
  findMessagingServiceSid :: "string option"
  service_update :: "unit response"
  service_fetch :: "string option response"

datatype strategy = RawJson | FormEncoded | SdkHelper | IncomingNumber | MessagingService

datatype api_call = Write strategy | ReadBack strategy

datatype webhook_result = WebhookSet strategy string | Exit int

text \<open>\<open>fetched?.webhook?.callback_url || fetched?.webhook?.fallback_url\<close>\<close>

definition storedUrl :: "SenderWebhook option \<Rightarrow> string option" where
  "storedUrl fetched =
     (case fetched of
        None \<Rightarrow> None
      | Some wh \<Rightarrow> if truthy (callback_url wh) then callback_url wh else fallback_url wh)"

text \<open>
  Strategies 1 and 1b: a raw request, then a fetch of the sender; the strategy returns
  when the fetched sender holds a non-empty URL. Each strategy gives the URL it logged when
  it returned from the function, and the calls it made.
\<close>

definition sender_request ::
  "strategy \<Rightarrow> unit response \<Rightarrow> SenderWebhook option response \<Rightarrow> string option \<times> api_call list" where
  "sender_request s written fetched =
     (case written of
        Rejects \<Rightarrow> (None, [Write s])
      | Resolves u \<Rightarrow>
          (case fetched of
             Rejects \<Rightarrow> (None, [Write s, ReadBack s])
           | Resolves f \<Rightarrow>
               (if truthy (storedUrl f) then (storedUrl f, [Write s, ReadBack s])
                else (None, [Write s, ReadBack s]))))"

text \<open>Strategy 2: the helper of the client library, when the client has it.\<close>

definition sdk_helper :: "TwilioApi \<Rightarrow> string \<Rightarrow> string option \<times> api_call list" where
  "sdk_helper api url =
     (if has_channelsSenders api then
        (case helper_update api of
           Rejects \<Rightarrow> (None, [Write SdkHelper])
         | Resolves u \<Rightarrow>
             (case fetch_after_helper api of
                Rejects \<Rightarrow> (None, [Write SdkHelper, ReadBack SdkHelper])
              | Resolves f \<Rightarrow>
                  (Some (nullish (storedUrl f) url), [Write SdkHelper, ReadBack SdkHelper])))
      else (None, []))"

text \<open>Strategy 3: the incoming phone number, written and not read back.\<close>

definition incoming_number :: "TwilioApi \<Rightarrow> string \<Rightarrow> string option \<times> api_call list" where
  "incoming_number api url =
     (if truthy (findIncomingNumberSid api) then
        (case phone_update api of
           Rejects \<Rightarrow> (None, [Write IncomingNumber])
         | Resolves u \<Rightarrow> (Some url, [Write IncomingNumber]))
      else (None, []))"

text \<open>Strategy 4: \<open>setMessagingServiceWebhook\<close>; a URL stands for the result \<open>true\<close>.\<close>

definition setMessagingServiceWebhook :: "TwilioApi \<Rightarrow> string \<Rightarrow> string option \<times> api_call list" where
  "setMessagingServiceWebhook api url =
     (if truthy (findMessagingServiceSid api) then
        (case service_update api of
           Rejects \<Rightarrow> (None, [Write MessagingService])
         | Resolves u \<Rightarrow>
             (case service_fetch api of
                Rejects \<Rightarrow> (None, [Write MessagingService, ReadBack MessagingService])
              | Resolves stored \<Rightarrow>
                  (Some (nullish stored url), [Write MessagingService, ReadBack MessagingService])))
      else (None, []))"

text \<open>
  The function body is the five strategies one after the other, each in its own \<open>try\<close>:
  the first that returns ends the function; after the last, \<open>runtime.exit(1)\<close>.
\<close>

definition strategy_order :: "strategy list" where
  "strategy_order = [RawJson, FormEncoded, SdkHelper, IncomingNumber, MessagingService]"

fun attempt :: "TwilioApi \<Rightarrow> string \<Rightarrow> strategy \<Rightarrow> string option \<times> api_call list" where
  "attempt api url RawJson = sender_request RawJson (request_json api) (fetch_after_json api)"
| "attempt api url FormEncoded =
     sender_request FormEncoded (request_form api) (fetch_after_form api)"
| "attempt api url SdkHelper = sdk_helper api url"
| "attempt api url IncomingNumber = incoming_number api url"
| "attempt api url MessagingService = setMessagingServiceWebhook api url"

fun first_to_return ::
  "(strategy \<Rightarrow> string option \<times> api_call list) \<Rightarrow> strategy list \<Rightarrow> api_call list
     \<Rightarrow> webhook_result \<times> api_call list" where
  "first_to_return run [] calls = (Exit 1, calls)"
| "first_to_return run (s # later) calls =
     (case fst (run s) of
        Some u \<Rightarrow> (WebhookSet s u, calls @ snd (run s))
      | None \<Rightarrow> first_to_return run later (calls @ snd (run s)))"

definition updateWebhook :: "TwilioApi \<Rightarrow> string \<Rightarrow> webhook_result \<times> api_call list" where
  "updateWebhook api url = first_to_return (attempt api url) strategy_order []"

section \<open>Concrete inputs\<close>

text \<open>A small environment, configuration and runner on which the functions are evaluated.\<close>

definition example_store :: SessionStore where
  "example_store = [''+1999'' \<mapsto> \<lparr>sessionId = ''old'', updatedAt = 1000\<rparr>]"

definition example_env :: Env where
  "example_env =
     \<lparr>SESSION_STORE_DEFAULT = ''/home/u/.warelay/sessions.json'', homedir = ''/home/u'',
      path_resolve = (\<lambda>p. p), normalizeE164 = strip_whatsapp,
      readStoreFile = (\<lambda>p. ParsedObject example_store),
      now_at_check = 2000, now_at_write = 2001, randomUUID = ''uuid-1'', saveThrows = False\<rparr>"

definition example_session :: SessionConfig where
  "example_session =
     \<lparr>scope = None, resetTriggers = Some [''/new''], idleMinutes = Some (Num 0), store = None,
      sessionArgNew = None, sessionArgResume = None, sessionArgBeforeBody = None\<rparr>"

definition example_reply :: ReplyConfig where
  "example_reply =
     \<lparr>mode = ModeCommand, reply_text = None, command = Some [''echo'', ''{{Body}}''],
      template = None, timeoutSeconds = Some (Num 0), bodyPrefix = None,
      session = Some example_session\<rparr>"

definition example_cfg :: WarelayConfig where
  "example_cfg = \<lparr>inbound = Some \<lparr>allowFrom = Some [''+1555''], reply = Some example_reply\<rparr>\<rparr>"

definition msg_from :: "string \<Rightarrow> string \<Rightarrow> MsgContext" where
  "msg_from sender body = \<lparr>Body = Some body, From = Some sender, To = None, MessageSid = None\<rparr>"

definition fixed_runner :: "RunError + SpawnResult \<Rightarrow> CommandRunner" where
  "fixed_runner ended argv timeoutMs = ended"

definition exits_with :: "string \<Rightarrow> int option \<Rightarrow> SpawnResult" where
  "exits_with out c = \<lparr>stdout = out, stderr = [], code = c, signal = None, killed = False\<rparr>"



definition quick_child :: ChildProcess where
  "quick_child =
     \<lparr>events = [(5, StdoutData '' do''), (6, StderrData ''warn''), (7, StdoutData ''ne ''),
                (8, CloseEvent (Some 0) None)],
      events_after_kill = [], close_after_kill = (None, Some ''SIGKILL'')\<rparr>"

definition inbound_msg :: "string \<Rightarrow> int \<Rightarrow> MessageInstance" where
  "inbound_msg i created =
     \<lparr>sid = i, direction = ''inbound'', dateCreated = Some created, m_from = None,
      m_to = None, m_body = None\<rparr>"

definition example_poll :: PollEnv where
  "example_poll =
     \<lparr>messages_list = (\<lambda>i after.
        if i = 0 then Inr [inbound_msg ''SM2'' 20, inbound_msg ''SM1'' 10]
        else if i = 1 then Inl ''network''
        else Inr [inbound_msg ''SM3'' 30, inbound_msg ''SM2'' 20]),
      sigint_before = (\<lambda>i. False)\<rparr>"

definition stale_api :: TwilioApi where
  "stale_api =
     \<lparr>request_json = Resolves (),
      fetch_after_json = Resolves (Some \<lparr>callback_url = Some ''https://old.example/hook'',
                                         fallback_url = None\<rparr>),
      request_form = Resolves (),
      fetch_after_form = Resolves (Some \<lparr>callback_url = Some ''https://new.example/hook'',
                                         fallback_url = None\<rparr>),
      has_channelsSenders = True, helper_update = Resolves (),
      fetch_after_helper = Resolves None,
      findIncomingNumberSid = None, phone_update = Rejects,
      findMessagingServiceSid = None, service_update = Rejects, service_fetch = Rejects\<rparr>"

definition failing_api :: TwilioApi where
  "failing_api =
     \<lparr>request_json = Resolves (), fetch_after_json = Resolves None,
      request_form = Rejects, fetch_after_form = Rejects,
      has_channelsSenders = False, helper_update = Rejects, fetch_after_helper = Rejects,
      findIncomingNumberSid = Some ''PN1'', phone_update = Rejects,
      findMessagingServiceSid = Some ''MG1'', service_update = Resolves (),
      service_fetch = Rejects\<rparr>"

section \<open>Properties of the template engine\<close>

lemma brace_classes:
  "\<not> is_space CHR ''{''" "\<not> is_word CHR ''{''" "\<not> is_space CHR ''}''" "\<not> is_word CHR ''}''"
  by (simp_all add: is_space_def is_word_def)

lemma space_not_word: "is_space c \<Longrightarrow> \<not> is_word c"
  by (auto simp: is_space_def is_word_def Let_def)

lemma startsWith2_iff:
  "startsWith s [a, b] \<longleftrightarrow> (\<exists>r. s = a # b # r)"
  by (cases s; cases "tl s") (auto simp: startsWith_def)

lemma dropWhile_append_ne:
  "dropWhile P xs \<noteq> [] \<Longrightarrow> dropWhile P (xs @ ys) = dropWhile P xs @ ys"
  by (induction xs) auto

lemma takeWhile_append_ne:
  "dropWhile P xs \<noteq> [] \<Longrightarrow> takeWhile P (xs @ ys) = takeWhile P xs"
  by (induction xs) auto

lemma dropWhile_append_stop:
  "\<not> P y \<Longrightarrow> dropWhile P (xs @ y # ys) = dropWhile P xs @ y # ys"
  by (induction xs) auto

lemma takeWhile_append_stop:
  "\<not> P y \<Longrightarrow> takeWhile P (xs @ y # ys) = takeWhile P xs"
  by (induction xs) auto

lemma match_placeholder_append:
  assumes "match_placeholder s = Some (k, rest)"
  shows "match_placeholder (s @ t) = Some (k, rest @ t)"
proof -
  from assms obtain r0 where s: "s = CHR ''{'' # CHR ''{'' # r0"
    by (auto simp: match_placeholder_def startsWith2_iff split: if_splits)
  define r1 where "r1 = dropWhile is_space r0"
  define r2 where "r2 = dropWhile is_word r1"
  define r3 where "r3 = dropWhile is_space r2"
  from assms s have k: "k = takeWhile is_word r1" and kne: "takeWhile is_word r1 \<noteq> []"
    and st: "startsWith r3 ''}}''" and rest: "rest = drop 2 r3"
    by (auto simp: match_placeholder_def Let_def startsWith2_iff r1_def r2_def r3_def
             split: if_splits)
  from st obtain r4 where r3: "r3 = CHR ''}'' # CHR ''}'' # r4"
    by (auto simp: startsWith2_iff)
  have r3ne: "dropWhile is_space r2 \<noteq> []" using r3 by (simp add: r3_def)
  have r2ne: "dropWhile is_word r1 \<noteq> []"
  proof
    assume "dropWhile is_word r1 = []"
    then have "r2 = []" by (simp only: r2_def)
    then have "r3 = []" by (simp add: r3_def)
    with r3 show False by simp
  qed
  have r1ne: "dropWhile is_space r0 \<noteq> []"
  proof
    assume "dropWhile is_space r0 = []"
    then have "r1 = []" by (simp only: r1_def)
    then have "takeWhile is_word r1 = []" by simp
    with kne show False by simp
  qed
  have e1: "dropWhile is_space (r0 @ t) = r1 @ t"
    using dropWhile_append_ne [OF r1ne] by (simp only: r1_def)
  have e2: "dropWhile is_word (r1 @ t) = r2 @ t"
    using dropWhile_append_ne [OF r2ne] by (simp only: r2_def)
  have e2': "takeWhile is_word (r1 @ t) = takeWhile is_word r1"
    using takeWhile_append_ne [OF r2ne] .
  have e3: "dropWhile is_space (r2 @ t) = r3 @ t"
    using dropWhile_append_ne [OF r3ne] by (simp only: r3_def)
  have "match_placeholder (s @ t) =
        (if takeWhile is_word (r1 @ t) \<noteq> [] \<and> startsWith (r3 @ t) ''}}''
         then Some (takeWhile is_word (r1 @ t), drop 2 (r3 @ t)) else None)"
    unfolding s match_placeholder_def by (simp add: Let_def startsWith2_iff e1 e2 e3)
  also have "\<dots> = Some (k, rest @ t)"
    using kne by (simp add: e2' k rest r3 startsWith2_iff)
  finally show ?thesis .
qed

lemma match_placeholder_exact:
  assumes "key \<noteq> []" "\<forall>c\<in>set key. is_word c" "\<forall>c\<in>set ws1. is_space c" "\<forall>c\<in>set ws2. is_space c"
  shows "match_placeholder (''{{'' @ ws1 @ key @ ws2 @ ''}}'' @ post) = Some (key, post)"
proof -
  obtain k ks where key: "key = k # ks" using assms(1) by (cases key) auto
  have knsp: "\<not> is_space k" using assms(2) key space_not_word by auto
  define tl2 where "tl2 = CHR ''}'' # CHR ''}'' # post"
  have d: "dropWhile is_space (ws2 @ tl2) = tl2"
    using assms(4) by (simp add: dropWhile_append2 brace_classes tl2_def)
  have nw: "\<not> is_word (hd (ws2 @ tl2))"
    using assms(4) by (cases ws2) (auto simp: brace_classes tl2_def dest: space_not_word)
  obtain y ys where w2: "ws2 @ tl2 = y # ys" by (cases "ws2 @ tl2") (auto simp: tl2_def)
  with nw have ny: "\<not> is_word y" by simp
  have b: "takeWhile is_word (key @ ws2 @ tl2) = key"
    using assms(2) by (simp add: w2 ny)
  have c: "dropWhile is_word (key @ ws2 @ tl2) = ws2 @ tl2"
    using assms(2) by (simp add: w2 ny dropWhile_append2)
  have a: "dropWhile is_space (ws1 @ key @ ws2 @ tl2) = key @ ws2 @ tl2"
    using assms(3) knsp by (simp add: dropWhile_append2 key)
  have "match_placeholder (CHR ''{'' # CHR ''{'' # ws1 @ key @ ws2 @ tl2) = Some (key, post)"
    unfolding match_placeholder_def using assms(1)
    by (simp add: Let_def startsWith2_iff a b c d) (simp add: tl2_def)
  then show ?thesis by (simp add: tl2_def)
qed

lemma match_placeholder_none_append:
  assumes "match_placeholder s = None" "s \<noteq> []"
  shows "match_placeholder (s @ CHR ''{'' # CHR ''{'' # t) = None"
proof (cases "startsWith s ''{{''")
  case False
  show ?thesis
  proof (cases s)
    case Nil with assms show ?thesis by simp
  next
    case (Cons a s')
    show ?thesis
    proof (cases s')
      case Nil
      with Cons show ?thesis
        by (auto simp: match_placeholder_def startsWith2_iff brace_classes)
    next
      case (Cons b s'')
      with \<open>s = a # s'\<close> False show ?thesis
        by (auto simp: match_placeholder_def startsWith2_iff)
    qed
  qed
next
  case True
  then obtain r0 where s: "s = CHR ''{'' # CHR ''{'' # r0"
    by (auto simp: startsWith2_iff)
  define X where "X = CHR ''{'' # t"
  define r1 where "r1 = dropWhile is_space r0"
  define r2 where "r2 = dropWhile is_word r1"
  define r3 where "r3 = dropWhile is_space r2"
  from assms(1) s have none: "takeWhile is_word r1 = [] \<or> \<not> startsWith r3 ''}}''"
    by (auto simp: match_placeholder_def Let_def startsWith2_iff r1_def r2_def r3_def
             split: if_splits)
  have e1: "dropWhile is_space (r0 @ CHR ''{'' # X) = r1 @ CHR ''{'' # X"
    by (simp add: dropWhile_append_stop brace_classes r1_def)
  have e2: "dropWhile is_word (r1 @ CHR ''{'' # X) = r2 @ CHR ''{'' # X"
    by (simp add: dropWhile_append_stop brace_classes r2_def)
  have e2': "takeWhile is_word (r1 @ CHR ''{'' # X) = takeWhile is_word r1"
    by (simp add: takeWhile_append_stop brace_classes)
  have e3: "dropWhile is_space (r2 @ CHR ''{'' # X) = r3 @ CHR ''{'' # X"
    by (simp add: dropWhile_append_stop brace_classes r3_def)
  have st: "startsWith (r3 @ CHR ''{'' # X) ''}}'' \<Longrightarrow> startsWith r3 ''}}''"
    by (cases r3; cases "tl r3") (auto simp: startsWith_def)
  have "match_placeholder (s @ CHR ''{'' # X) =
        (if takeWhile is_word r1 \<noteq> [] \<and> startsWith (r3 @ CHR ''{'' # X) ''}}''
         then Some (takeWhile is_word r1, drop 2 (r3 @ CHR ''{'' # X)) else None)"
    unfolding s match_placeholder_def by (simp add: Let_def startsWith2_iff e1 e2 e2' e3)
  also have "\<dots> = None" using none st by auto
  finally show ?thesis by (simp add: X_def)
qed

lemma applyTemplate_placeholder:
  assumes "key \<noteq> []" "\<forall>c\<in>set key. is_word c" "\<forall>c\<in>set ws1. is_space c" "\<forall>c\<in>set ws2. is_space c"
  shows "applyTemplate (pre @ ''{{'' @ ws1 @ key @ ws2 @ ''}}'' @ post) ctx =
         applyTemplate pre ctx @ render_value (ctx key) @ applyTemplate post ctx"
proof (induction pre ctx rule: applyTemplate.induct)
  case (1 ctx)
  have "match_placeholder (''{{'' @ ws1 @ key @ ws2 @ ''}}'' @ post) = Some (key, post)"
    using assms by (rule match_placeholder_exact)
  then show ?case by simp
next
  case (2 c cs ctx)
  define X where "X = ws1 @ key @ ws2 @ ''}}'' @ post"
  show ?case
  proof (cases "match_placeholder (c # cs)")
    case None
    then have "match_placeholder ((c # cs) @ CHR ''{'' # CHR ''{'' # X) = None"
      by (rule match_placeholder_none_append) simp
    with None 2 show ?thesis by (simp add: X_def)
  next
    case (Some kr)
    obtain k rest where kr: "kr = (k, rest)" by (cases kr)
    with Some have "match_placeholder ((c # cs) @ CHR ''{'' # CHR ''{'' # X) =
        Some (k, rest @ CHR ''{'' # CHR ''{'' # X)"
      using match_placeholder_append [of "c # cs" k rest] by simp
    with Some kr 2 show ?thesis by (simp add: X_def)
  qed
qed

lemma no_match_Cons:
  "(\<forall>i. match_placeholder (drop i (c # cs)) = None) \<longleftrightarrow>
     match_placeholder (c # cs) = None \<and> (\<forall>i. match_placeholder (drop i cs) = None)"
proof
  assume all: "\<forall>i. match_placeholder (drop i (c # cs)) = None"
  have "match_placeholder (drop 0 (c # cs)) = None"
    using all by blast
  moreover have "match_placeholder (drop i cs) = None" for i
    using all [rule_format, of "Suc i"] by simp
  ultimately show "match_placeholder (c # cs) = None \<and> (\<forall>i. match_placeholder (drop i cs) = None)"
    by simp
next
  assume r: "match_placeholder (c # cs) = None \<and> (\<forall>i. match_placeholder (drop i cs) = None)"
  show "\<forall>i. match_placeholder (drop i (c # cs)) = None"
  proof
    fix i
    show "match_placeholder (drop i (c # cs)) = None"
      using r by (cases i) simp_all
  qed
qed

lemma applyTemplate_no_match:
  "(\<And>i. match_placeholder (drop i s) = None) \<Longrightarrow> applyTemplate s ctx = s"
proof (induction s)
  case Nil
  show ?case by simp
next
  case (Cons c cs)
  have here: "match_placeholder (c # cs) = None"
    using Cons.prems [of 0] by simp
  have "\<And>i. match_placeholder (drop i cs) = None"
    using Cons.prems [of "Suc _"] by simp
  then have "applyTemplate cs ctx = cs"
    by (rule Cons.IH)
  with here show ?case by simp
qed

lemma render_unset:
  assumes "own key = Some JUndefined \<or> own key = Some JNull
           \<or> (own key = None \<and> object_prototype key = JUndefined)"
  shows "render_value (read_property own key) = []"
  using assms by (auto simp: read_property_def)

theorem inherited_key_counterexample:
  "applyTemplate ''{{A}} {{toString}}'' (read_property [''A'' \<mapsto> JString ''x''])
     = ''x function toString() { [native code] }''"
  by (simp add: match_placeholder_def startsWith_def is_space_def is_word_def
                read_property_def object_prototype_def)

text \<open>
  C4 (amended). Every placeholder \<open>{{ key }}\<close> (a non-empty run of word characters between
  double braces, with optional whitespace on either side of the name) is replaced by the
  string form of the context read \<open>ctx[key]\<close>, wherever it stands in the template: what
  precedes it and what follows it are rendered on their own, and the inserted value is not
  scanned again. A key renders as the empty string when that read is undefined or null,
  which is so for a field of the context that is undefined or null and for every key that
  is neither a field of the context nor the name of a property of \<open>Object.prototype\<close>; a
  field holding a string renders as that string. A template in which the pattern matches
  nowhere is returned unchanged. The function is total: it returns a string for every
  template and context. In particular \<open>applyTemplate("{{A}} {{B}}", {A: "x"})\<close> is \<open>"x "\<close>,
  and a value that itself looks like a placeholder is inserted as it is.
\<close>

theorem applyTemplate_replaces_placeholders:
  "(key \<noteq> [] \<and> (\<forall>c\<in>set key. is_word c) \<and> (\<forall>c\<in>set lead. is_space c)
      \<and> (\<forall>c\<in>set trail. is_space c) \<longrightarrow>
      applyTemplate (pre @ ''{{'' @ lead @ key @ trail @ ''}}'' @ post) ctx =
        applyTemplate pre ctx @ render_value (ctx key) @ applyTemplate post ctx)
   \<and> (key \<noteq> [] \<and> (\<forall>c\<in>set key. is_word c) \<and> (\<forall>c\<in>set lead. is_space c)
      \<and> (\<forall>c\<in>set trail. is_space c)
      \<and> (own key = Some JUndefined \<or> own key = Some JNull
           \<or> (own key = None \<and> object_prototype key = JUndefined)) \<longrightarrow>
      applyTemplate (pre @ ''{{'' @ lead @ key @ trail @ ''}}'' @ post) (read_property own) =
        applyTemplate pre (read_property own) @ applyTemplate post (read_property own))
   \<and> (key \<noteq> [] \<and> (\<forall>c\<in>set key. is_word c) \<and> (\<forall>c\<in>set lead. is_space c)
      \<and> (\<forall>c\<in>set trail. is_space c) \<and> own key = Some (JString v) \<longrightarrow>
      applyTemplate (pre @ ''{{'' @ lead @ key @ trail @ ''}}'' @ post) (read_property own) =
        applyTemplate pre (read_property own) @ v @ applyTemplate post (read_property own))
   \<and> ((\<forall>i. match_placeholder (drop i s) = None) \<longrightarrow> applyTemplate s ctx = s)
   \<and> applyTemplate ''{{A}} {{B}}'' (read_property [''A'' \<mapsto> JString ''x'']) = ''x ''
   \<and> applyTemplate ''{{A}}'' (read_property [''A'' \<mapsto> JString ''{{B}}'', ''B'' \<mapsto> JString ''y''])
      = ''{{B}}''"
proof (intro conjI impI)
  assume "key \<noteq> [] \<and> (\<forall>c\<in>set key. is_word c) \<and> (\<forall>c\<in>set lead. is_space c)
      \<and> (\<forall>c\<in>set trail. is_space c)"
  then show "applyTemplate (pre @ ''{{'' @ lead @ key @ trail @ ''}}'' @ post) ctx =
        applyTemplate pre ctx @ render_value (ctx key) @ applyTemplate post ctx"
    using applyTemplate_placeholder [of key lead trail pre post ctx] by blast
next
  assume h: "key \<noteq> [] \<and> (\<forall>c\<in>set key. is_word c) \<and> (\<forall>c\<in>set lead. is_space c)
      \<and> (\<forall>c\<in>set trail. is_space c)
      \<and> (own key = Some JUndefined \<or> own key = Some JNull
           \<or> (own key = None \<and> object_prototype key = JUndefined))"
  then have "render_value (read_property own key) = []"
    using render_unset [of own key] by blast
  with h applyTemplate_placeholder [of key lead trail pre post "read_property own"]
  show "applyTemplate (pre @ ''{{'' @ lead @ key @ trail @ ''}}'' @ post) (read_property own) =
        applyTemplate pre (read_property own) @ applyTemplate post (read_property own)"
    by simp
next
  assume h: "key \<noteq> [] \<and> (\<forall>c\<in>set key. is_word c) \<and> (\<forall>c\<in>set lead. is_space c)
      \<and> (\<forall>c\<in>set trail. is_space c) \<and> own key = Some (JString v)"
  then have "render_value (read_property own key) = v"
    by (simp add: read_property_def)
  with h applyTemplate_placeholder [of key lead trail pre post "read_property own"]
  show "applyTemplate (pre @ ''{{'' @ lead @ key @ trail @ ''}}'' @ post) (read_property own) =
        applyTemplate pre (read_property own) @ v @ applyTemplate post (read_property own)"
    by simp
next
  assume "\<forall>i. match_placeholder (drop i s) = None"
  then show "applyTemplate s ctx = s" by (simp add: applyTemplate_no_match)
next
  show "applyTemplate ''{{A}} {{B}}'' (read_property [''A'' \<mapsto> JString ''x'']) = ''x ''"
    by (simp add: match_placeholder_def startsWith_def is_space_def is_word_def
                  read_property_def object_prototype_def)
next
  show "applyTemplate ''{{A}}'' (read_property [''A'' \<mapsto> JString ''{{B}}'', ''B'' \<mapsto> JString ''y''])
      = ''{{B}}''"
    by (simp add: match_placeholder_def startsWith_def is_space_def is_word_def
                  read_property_def object_prototype_def)
qed

theorem applyTemplate_replaces_placeholders_witness:
  "applyTemplate ''Hi {{ Name}}!'' (read_property [''Name'' \<mapsto> JString ''Bob'', ''Who'' \<mapsto> JNull])
      = ''Hi Bob!''
   \<and> applyTemplate ''to {{Who}}.'' (read_property [''Name'' \<mapsto> JString ''Bob'', ''Who'' \<mapsto> JNull])
      = ''to .''
   \<and> applyTemplate ''to {{ Zed }}.'' (read_property [''Name'' \<mapsto> JString ''Bob'', ''Who'' \<mapsto> JNull])
      = ''to .''
   \<and> (\<forall>i. match_placeholder (drop i ''a {{ }} b'') = None)
   \<and> applyTemplate ''a {{ }} b'' (\<lambda>k. JString ''z'') = ''a {{ }} b''"
proof -
  let ?own = "[''Name'' \<mapsto> JString ''Bob'', ''Who'' \<mapsto> JNull]"
  let ?ctx = "read_property ?own"
  have w: "''Name'' \<noteq> [] \<and> (\<forall>c\<in>set ''Name''. is_word c)"
          "''Who'' \<noteq> [] \<and> (\<forall>c\<in>set ''Who''. is_word c)"
          "''Zed'' \<noteq> [] \<and> (\<forall>c\<in>set ''Zed''. is_word c)"
          "\<forall>c\<in>set '' ''. is_space c" "\<forall>c\<in>set ''''. is_space c"
    by (simp_all add: is_word_def is_space_def)
  have own: "?own ''Name'' = Some (JString ''Bob'')" "?own ''Who'' = Some JNull"
            "?own ''Zed'' = None \<and> object_prototype ''Zed'' = JUndefined"
    by (simp_all add: object_prototype_def)
  have h3: "\<forall>i. match_placeholder (drop i ''a {{ }} b'') = None"
    by (simp only: no_match_Cons drop_Nil)
       (simp add: match_placeholder_def startsWith_def is_space_def is_word_def)
  have lit: "applyTemplate ''Hi '' ?ctx = ''Hi ''" "applyTemplate ''!'' ?ctx = ''!''"
            "applyTemplate ''to '' ?ctx = ''to ''" "applyTemplate ''.'' ?ctx = ''.''"
    by (simp_all add: match_placeholder_def startsWith_def)
  have a: "applyTemplate (''Hi '' @ ''{{'' @ '' '' @ ''Name'' @ '''' @ ''}}'' @ ''!'') ?ctx =
             applyTemplate ''Hi '' ?ctx @ ''Bob'' @ applyTemplate ''!'' ?ctx"
    using applyTemplate_replaces_placeholders
            [where key = "''Name''" and lead = "'' ''" and trail = "''''" and pre = "''Hi ''"
               and post = "''!''" and own = ?own and v = "''Bob''"] w own
    by blast
  have b: "applyTemplate (''to '' @ ''{{'' @ '''' @ ''Who'' @ '''' @ ''}}'' @ ''.'') ?ctx =
             applyTemplate ''to '' ?ctx @ applyTemplate ''.'' ?ctx"
    using applyTemplate_replaces_placeholders
            [where key = "''Who''" and lead = "''''" and trail = "''''" and pre = "''to ''"
               and post = "''.''" and own = ?own] w own
    by blast
  have c: "applyTemplate (''to '' @ ''{{'' @ '' '' @ ''Zed'' @ '' '' @ ''}}'' @ ''.'') ?ctx =
             applyTemplate ''to '' ?ctx @ applyTemplate ''.'' ?ctx"
    using applyTemplate_replaces_placeholders
            [where key = "''Zed''" and lead = "'' ''" and trail = "'' ''" and pre = "''to ''"
               and post = "''.''" and own = ?own] w own
    by blast
  have d: "applyTemplate ''a {{ }} b'' (\<lambda>k. JString ''z'') = ''a {{ }} b''"
    using applyTemplate_replaces_placeholders
            [where s = "''a {{ }} b''" and ctx = "\<lambda>k. JString ''z''"] h3
    by blast
  from a b c lit have
    "applyTemplate ''Hi {{ Name}}!'' ?ctx = ''Hi Bob!''"
    "applyTemplate ''to {{Who}}.'' ?ctx = ''to .''"
    "applyTemplate ''to {{ Zed }}.'' ?ctx = ''to .''"
    by simp_all
  with h3 d show ?thesis by blast
qed

section \<open>Properties of the reply resolver\<close>

lemmas resolver_defs =
  getReplyFromConfig_def session_phase_def resolve_session_def reply_phase_def
  command_reply_def build_argv_def templatingCtx_of_def sessionCtx_of_def
  blocked_by_allowFrom_def strip_whatsapp_def freshEntry_def deriveSessionKey_def
  resolveStorePath_def effective_timeoutSeconds_def effective_idleMinutes_def
  effective_resetTriggers_def DEFAULT_RESET_TRIGGER_def DEFAULT_IDLE_MINUTES_def
  as_record_def own_fields_def read_property_def object_prototype_def
  match_placeholder_def startsWith_def trim_def trimStart_def trimEnd_def
  is_space_def is_word_def

lemmas example_defs =
  example_env_def example_cfg_def example_reply_def example_session_def example_store_def
  msg_from_def fixed_runner_def exits_with_def

lemma onReplyStart_effects: "e \<in> set (fst (onReplyStart opts)) \<Longrightarrow> e = OnReplyStart"
  by (cases opts) auto

lemma command_reply_effects: "e \<in> set (snd (command_reply x)) \<Longrightarrow> \<exists>k. e = ConsoleError k"
  by (auto simp: command_reply_def Let_def split: sum.splits if_splits)

lemma session_phase_effects:
  "e \<in> set (fst (snd (session_phase env sc ctx))) \<Longrightarrow>
     (\<exists>p. e = LoadSessionStore p) \<or> (\<exists>p m. e = SaveSessionStore p m)"
  by (auto simp: session_phase_def Let_def split: option.splits)

lemma reply_phase_CommandRun:
  "CommandRun argv t \<in> set (snd (reply_phase opts r tc isNew tm runner)) \<Longrightarrow> t = tm"
  by (auto simp: reply_phase_def Let_def split: option.splits if_splits
           dest: onReplyStart_effects command_reply_effects)

lemma getReply_CommandRun:
  "CommandRun argv t \<in> set (snd (getReplyFromConfig env ctx opts cfg runner)) \<Longrightarrow>
     t = js_times (effective_timeoutSeconds (Option.bind (inbound cfg) reply)) 1000"
  by (auto simp: getReplyFromConfig_def Let_def split: if_splits
           dest: session_phase_effects reply_phase_CommandRun)

lemma clamp_at_least_one:
  "x \<noteq> NaN \<Longrightarrow> 0 < k \<Longrightarrow> js_le (Num k) (js_times (Math_max x (Num 1)) k)"
  by (cases x) auto

lemma clamp_finite:
  "js_times (Math_max (Num n) (Num 1)) k = Num (max n 1 * k)"
  by simp

lemma resolve_session_reuse:
  assumes "loadSessionStore (readStoreFile env (resolveStorePath env (store sc)))
             (deriveSessionKey env (nullish (scope sc) PerSender) ctx) = Some e"
      and "\<not> fst (scan_resetTriggers (effective_resetTriggers (Some sc))
                     (trim (nullish (Body ctx) [])))"
  shows "\<not> var_isNewSession (fst (resolve_session env sc ctx)) \<longleftrightarrow>
           js_le (Num (now_at_check env - updatedAt e))
                 (js_times (Math_max (nullish (idleMinutes sc) (Num 60)) (Num 1)) 60000)"
    and "\<not> var_isNewSession (fst (resolve_session env sc ctx)) \<Longrightarrow>
           var_sessionId (fst (resolve_session env sc ctx)) = Some (sessionId e)"
  using assms
  by (auto simp: resolve_session_def Let_def freshEntry_def effective_idleMinutes_def
                 DEFAULT_IDLE_MINUTES_def split: if_splits)

theorem unclamped_timeout_counterexample:
  "snd (getReplyFromConfig example_env (msg_from ''whatsapp:+1555'' ''hi'') CallbackReturns
          \<lparr>inbound = Some \<lparr>allowFrom = None,
                             reply = Some (example_reply\<lparr>timeoutSeconds := Some NaN,
                                                           session := None\<rparr>)\<rparr>\<rparr>
          (runCommandWithTimeout (\<lambda>argv. quick_child)))
     = [OnReplyStart, CommandRun [''echo'', ''hi''] NaN]
   \<and> runCommandWithTimeout (\<lambda>argv. quick_child) [''echo'', ''hi'']
        (js_times (Math_max (Num 3000000) (Num 1)) 1000)
     = Inr \<lparr>stdout = [], stderr = [], code = None, signal = Some ''SIGKILL'', killed = True\<rparr>
   \<and> runCommandWithTimeout (\<lambda>argv. quick_child) [''echo'', ''hi''] (Num 1000)
     = Inr \<lparr>stdout = '' done '', stderr = ''warn'', code = Some 0, signal = None,
            killed = False\<rparr>"
  by (simp add: resolver_defs example_defs Let_def runCommandWithTimeout_def quick_child_def
                setTimeout_delay_def)

text \<open>
  C10 (amended). For every configuration whose \<open>timeoutSeconds\<close> and \<open>idleMinutes\<close> are
  unset or numbers other than \<open>NaN\<close>, the Reply Resolver clamps its effective limits to a
  minimum of one unit. The timeout handed to the command runner is
  \<open>max(timeoutSeconds, 1)\<close> seconds (600 when unset), in milliseconds, hence at least one
  second; when it is at most \<open>2^31 - 1\<close> milliseconds it is the delay of the kill timer of
  \<open>runCommandWithTimeout\<close>: a child that ends before it is not killed, one that ends at it
  or later is. The session idle window is \<open>max(idleMinutes, 1)\<close> minutes (60 when unset),
  hence at least one minute: when no reset trigger matched, a stored entry is reused
  exactly when its age is within that window. So a zero or negative configured value
  disables neither the timeout nor the idle expiry.
\<close>

theorem clamped_limits:
  assumes "out = getReplyFromConfig env ctx opts cfg commandRunner"
      and "configured = Option.bind (Option.bind (inbound cfg) reply) timeoutSeconds"
      and "entry = loadSessionStore (readStoreFile env (resolveStorePath env (store sc)))
                     (deriveSessionKey env (nullish (scope sc) PerSender) ctx)"
      and "triggered = fst (scan_resetTriggers (effective_resetTriggers (Some sc))
                             (trim (nullish (Body ctx) [])))"
      and "sv = fst (resolve_session env sc ctx)"
      and "age = now_at_check env - updatedAt e"
  shows "(CommandRun argv t \<in> set (snd out) \<and> configured \<noteq> Some NaN \<longrightarrow>
            t = js_times (Math_max (nullish configured (Num 600)) (Num 1)) 1000
            \<and> js_le (Num 1000) t)
       \<and> (CommandRun argv t \<in> set (snd out) \<and> configured = Some (Num n) \<longrightarrow>
            t = Num (max n 1 * 1000))
       \<and> (CommandRun argv t \<in> set (snd out) \<and> configured = None \<longrightarrow> t = Num 600000)
       \<and> (1 \<le> ms \<and> ms \<le> 2147483647 \<and> cmd \<noteq> []
            \<and> events (spawn cmd) = [(ended, CloseEvent c s)]
            \<and> events_after_kill (spawn cmd) = [] \<longrightarrow>
            runCommandWithTimeout spawn cmd (Num ms) =
              Inr (if ended < ms
                   then \<lparr>stdout = [], stderr = [], code = c, signal = s, killed = False\<rparr>
                   else \<lparr>stdout = [], stderr = [], code = fst (close_after_kill (spawn cmd)),
                         signal = snd (close_after_kill (spawn cmd)), killed = True\<rparr>))
       \<and> (\<not> triggered \<and> entry = Some e \<and> idleMinutes sc \<noteq> Some NaN \<longrightarrow>
            (\<not> var_isNewSession sv \<longleftrightarrow>
               js_le (Num age)
                     (js_times (Math_max (nullish (idleMinutes sc) (Num 60)) (Num 1)) 60000))
            \<and> (\<not> var_isNewSession sv \<longrightarrow> var_sessionId sv = Some (sessionId e))
            \<and> js_le (Num 60000)
                     (js_times (Math_max (nullish (idleMinutes sc) (Num 60)) (Num 1)) 60000))
       \<and> (\<not> triggered \<and> entry = Some e \<and> idleMinutes sc = Some (Num m) \<longrightarrow>
            (\<not> var_isNewSession sv \<longleftrightarrow> age \<le> max m 1 * 60000))
       \<and> (\<not> triggered \<and> entry = Some e \<and> idleMinutes sc = None \<longrightarrow>
            (\<not> var_isNewSession sv \<longleftrightarrow> age \<le> 3600000))"
proof -
  have handed: "t = js_times (Math_max (nullish configured (Num 600)) (Num 1)) 1000"
    if "CommandRun argv t \<in> set (snd out)"
    using getReply_CommandRun [of argv t env ctx opts cfg commandRunner] that
    by (simp add: assms(1,2) effective_timeoutSeconds_def)
  have a: "CommandRun argv t \<in> set (snd out) \<and> configured \<noteq> Some NaN \<longrightarrow>
            t = js_times (Math_max (nullish configured (Num 600)) (Num 1)) 1000
            \<and> js_le (Num 1000) t"
  proof (intro impI, elim conjE)
    assume run: "CommandRun argv t \<in> set (snd out)" and ok: "configured \<noteq> Some NaN"
    from ok have "nullish configured (Num 600) \<noteq> NaN"
      by (cases configured) auto
    then have "js_le (Num 1000) (js_times (Math_max (nullish configured (Num 600)) (Num 1)) 1000)"
      by (rule clamp_at_least_one) simp
    with handed [OF run]
    show "t = js_times (Math_max (nullish configured (Num 600)) (Num 1)) 1000 \<and> js_le (Num 1000) t"
      by simp
  qed
  have b: "CommandRun argv t \<in> set (snd out) \<and> configured = Some (Num n) \<longrightarrow>
            t = Num (max n 1 * 1000)"
    using handed by auto
  have c: "CommandRun argv t \<in> set (snd out) \<and> configured = None \<longrightarrow> t = Num 600000"
    using handed by auto
  have d: "1 \<le> ms \<and> ms \<le> 2147483647 \<and> cmd \<noteq> []
            \<and> events (spawn cmd) = [(ended, CloseEvent c s)]
            \<and> events_after_kill (spawn cmd) = [] \<longrightarrow>
            runCommandWithTimeout spawn cmd (Num ms) =
              Inr (if ended < ms
                   then \<lparr>stdout = [], stderr = [], code = c, signal = s, killed = False\<rparr>
                   else \<lparr>stdout = [], stderr = [], code = fst (close_after_kill (spawn cmd)),
                         signal = snd (close_after_kill (spawn cmd)), killed = True\<rparr>)"
    by (auto simp: runCommandWithTimeout_def setTimeout_delay_def)
  have reuse: "\<not> var_isNewSession sv \<longleftrightarrow>
           js_le (Num age) (js_times (Math_max (nullish (idleMinutes sc) (Num 60)) (Num 1)) 60000)"
      and same: "\<not> var_isNewSession sv \<longrightarrow> var_sessionId sv = Some (sessionId e)"
    if "\<not> triggered" "entry = Some e"
  proof -
    from that(2) assms(3)
    have stored: "loadSessionStore (readStoreFile env (resolveStorePath env (store sc)))
             (deriveSessionKey env (nullish (scope sc) PerSender) ctx) = Some e"
      by simp
    from that(1) assms(4)
    have quiet: "\<not> fst (scan_resetTriggers (effective_resetTriggers (Some sc))
                     (trim (nullish (Body ctx) [])))"
      by simp
    show "\<not> var_isNewSession sv \<longleftrightarrow>
           js_le (Num age) (js_times (Math_max (nullish (idleMinutes sc) (Num 60)) (Num 1)) 60000)"
      using resolve_session_reuse(1) [OF stored quiet] by (simp add: assms(5,6))
    show "\<not> var_isNewSession sv \<longrightarrow> var_sessionId sv = Some (sessionId e)"
      using resolve_session_reuse(2) [OF stored quiet] by (simp add: assms(5))
  qed
  have e: "\<not> triggered \<and> entry = Some e \<and> idleMinutes sc \<noteq> Some NaN \<longrightarrow>
            (\<not> var_isNewSession sv \<longleftrightarrow>
               js_le (Num age)
                     (js_times (Math_max (nullish (idleMinutes sc) (Num 60)) (Num 1)) 60000))
            \<and> (\<not> var_isNewSession sv \<longrightarrow> var_sessionId sv = Some (sessionId e))
            \<and> js_le (Num 60000)
                     (js_times (Math_max (nullish (idleMinutes sc) (Num 60)) (Num 1)) 60000)"
  proof (intro impI, elim conjE)
    assume h: "\<not> triggered" "entry = Some e" "idleMinutes sc \<noteq> Some NaN"
    from h(3) have "nullish (idleMinutes sc) (Num 60) \<noteq> NaN"
      by (cases "idleMinutes sc") auto
    then have "js_le (Num 60000)
                 (js_times (Math_max (nullish (idleMinutes sc) (Num 60)) (Num 1)) 60000)"
      by (rule clamp_at_least_one) simp
    with reuse [OF h(1,2)] same [OF h(1,2)]
    show "(\<not> var_isNewSession sv \<longleftrightarrow>
               js_le (Num age)
                     (js_times (Math_max (nullish (idleMinutes sc) (Num 60)) (Num 1)) 60000))
            \<and> (\<not> var_isNewSession sv \<longrightarrow> var_sessionId sv = Some (sessionId e))
            \<and> js_le (Num 60000)
                     (js_times (Math_max (nullish (idleMinutes sc) (Num 60)) (Num 1)) 60000)"
      by blast
  qed
  have f: "\<not> triggered \<and> entry = Some e \<and> idleMinutes sc = Some (Num m) \<longrightarrow>
            (\<not> var_isNewSession sv \<longleftrightarrow> age \<le> max m 1 * 60000)"
    using reuse by auto
  have g: "\<not> triggered \<and> entry = Some e \<and> idleMinutes sc = None \<longrightarrow>
            (\<not> var_isNewSession sv \<longleftrightarrow> age \<le> 3600000)"
    using reuse by auto
  from a b c d e f g show ?thesis by blast
qed

theorem clamped_limits_witness:
  "CommandRun [''echo'', ''--session-id'', ''uuid-1'', ''hi''] (Num 1000)
     \<in> set (snd (getReplyFromConfig example_env (msg_from ''whatsapp:+1555'' ''hi'') CallbackReturns
                   example_cfg (fixed_runner (Inr (exits_with '' ok '' (Some 0))))))
   \<and> timeoutSeconds example_reply = Some (Num 0)
   \<and> runCommandWithTimeout
        (\<lambda>argv. \<lparr>events = [(5000, CloseEvent (Some 0) None)], events_after_kill = [],
                   close_after_kill = (None, Some ''SIGKILL'')\<rparr>) [''sleep'', ''5''] (Num 1000)
       = Inr \<lparr>stdout = [], stderr = [], code = None, signal = Some ''SIGKILL'', killed = True\<rparr>
   \<and> runCommandWithTimeout
        (\<lambda>argv. \<lparr>events = [(5000, CloseEvent (Some 0) None)], events_after_kill = [],
                   close_after_kill = (None, Some ''SIGKILL'')\<rparr>) [''sleep'', ''5''] (Num 6000)
       = Inr \<lparr>stdout = [], stderr = [], code = Some 0, signal = None, killed = False\<rparr>
   \<and> idleMinutes example_session = Some (Num 0)
   \<and> \<not> var_isNewSession (fst (resolve_session example_env example_session
                                 (msg_from ''+1999'' ''hi'')))
   \<and> var_isNewSession (fst (resolve_session (example_env\<lparr>now_at_check := 70000\<rparr>)
                               example_session (msg_from ''+1999'' ''hi'')))"
proof -
  let ?ctx = "msg_from ''whatsapp:+1555'' ''hi''"
  let ?run = "fixed_runner (Inr (exits_with '' ok '' (Some 0)))"
  let ?argv = "[''echo'', ''--session-id'', ''uuid-1'', ''hi'']"
  let ?late = "\<lambda>argv :: string list.
                 \<lparr>events = [(5000, CloseEvent (Some 0) None)], events_after_kill = [],
                  close_after_kill = (None, Some ''SIGKILL'')\<rparr>"
  let ?stale = "example_env\<lparr>now_at_check := 70000\<rparr>"
  let ?msg = "msg_from ''+1999'' ''hi''"
  let ?old = "\<lparr>sessionId = ''old'', updatedAt = 1000\<rparr>"
  have run: "CommandRun ?argv (Num 1000)
               \<in> set (snd (getReplyFromConfig example_env ?ctx CallbackReturns example_cfg ?run))"
    by (simp add: resolver_defs example_defs Let_def)
  have cfg: "Option.bind (Option.bind (inbound example_cfg) reply) timeoutSeconds = Some (Num 0)"
    "timeoutSeconds example_reply = Some (Num 0)" "idleMinutes example_session = Some (Num 0)"
    by (simp_all add: example_defs)
  have child: "events (?late [''sleep'', ''5'']) = [(5000, CloseEvent (Some 0) None)]"
    "events_after_kill (?late [''sleep'', ''5'']) = []" "[''sleep'', ''5''] \<noteq> []"
    by simp_all
  have e1: "loadSessionStore (readStoreFile example_env (resolveStorePath example_env (store example_session)))
              (deriveSessionKey example_env (nullish (scope example_session) PerSender) ?msg)
            = Some ?old"
    and e2: "loadSessionStore (readStoreFile ?stale (resolveStorePath ?stale (store example_session)))
              (deriveSessionKey ?stale (nullish (scope example_session) PerSender) ?msg)
            = Some ?old"
    and quiet: "\<not> fst (scan_resetTriggers (effective_resetTriggers (Some example_session))
                       (trim (nullish (Body ?msg) [])))"
    by (simp_all add: resolver_defs example_defs)
  note inst = clamped_limits [OF refl refl refl refl refl refl,
      where cfg = example_cfg and ctx = ?msg and sc = example_session and e = ?old
        and argv = ?argv and t = "Num 1000" and n = 0 and m = 0
        and spawn = ?late and cmd = "[''sleep'', ''5'']" and ended = 5000
        and c = "Some 0" and s = None and opts = CallbackReturns and commandRunner = ?run]
  have killed: "runCommandWithTimeout ?late [''sleep'', ''5''] (Num 1000)
       = Inr \<lparr>stdout = [], stderr = [], code = None, signal = Some ''SIGKILL'', killed = True\<rparr>"
    using inst [where env = example_env and ms = 1000] child by simp
  have spared: "runCommandWithTimeout ?late [''sleep'', ''5''] (Num 6000)
       = Inr \<lparr>stdout = [], stderr = [], code = Some 0, signal = None, killed = False\<rparr>"
    using inst [where env = example_env and ms = 6000] child by simp
  have reused: "\<not> var_isNewSession (fst (resolve_session example_env example_session ?msg))"
    using inst [where env = example_env and ms = 1000] e1 quiet cfg(3)
    by (simp add: example_env_def)
  have minted: "var_isNewSession (fst (resolve_session ?stale example_session ?msg))"
    using inst [where env = ?stale and ms = 1000] e2 quiet cfg(3)
    by (simp add: example_env_def)
  from run cfg killed spared reused minted show ?thesis
    by simp
qed

text \<open>
  C2. In the session step, with \<open>entry\<close> the stored entry under the derived key and
  \<open>triggered\<close> the outcome of the reset-trigger scan: the entry is fresh exactly when it
  exists and \<open>now - updatedAt <= idleMinutes * 60000\<close> (the effective idle minutes); when no
  trigger matched and the entry is fresh, its \<open>sessionId\<close> is reused as it is and
  \<open>isNewSession\<close> stays false; in every other case (reset, no entry, stale entry) the
  session id is the one freshly drawn from \<open>randomUUID\<close> and \<open>isNewSession\<close> is true. In
  particular an entry older than the idle window is not reused.
\<close>

theorem session_reuse_or_mint:
  assumes "entry = loadSessionStore (readStoreFile env (resolveStorePath env (store sc)))
                     (deriveSessionKey env (nullish (scope sc) PerSender) ctx)"
      and "triggered = fst (scan_resetTriggers (effective_resetTriggers (Some sc))
                             (trim (nullish (Body ctx) [])))"
      and "sv = fst (resolve_session env sc ctx)"
  shows "(freshEntry env sc entry \<longleftrightarrow>
            (\<exists>e. entry = Some e \<and>
                 js_le (Num (now_at_check env - updatedAt e))
                       (js_times (effective_idleMinutes (Some sc)) 60000)))
       \<and> (\<not> triggered \<and> freshEntry env sc entry \<longrightarrow>
            var_sessionId sv = Some (sessionId (the entry)) \<and> \<not> var_isNewSession sv)
       \<and> (triggered \<or> \<not> freshEntry env sc entry \<longrightarrow>
            var_sessionId sv = Some (randomUUID env) \<and> var_isNewSession sv)
       \<and> (\<forall>e. entry = Some e \<and>
                \<not> js_le (Num (now_at_check env - updatedAt e))
                         (js_times (effective_idleMinutes (Some sc)) 60000) \<longrightarrow>
            var_sessionId sv = Some (randomUUID env) \<and> var_isNewSession sv)"
proof (intro conjI impI allI)
  show "freshEntry env sc entry \<longleftrightarrow>
          (\<exists>e. entry = Some e \<and>
               js_le (Num (now_at_check env - updatedAt e))
                       (js_times (effective_idleMinutes (Some sc)) 60000))"
    by (cases entry) (simp_all add: freshEntry_def)
next
  assume "\<not> triggered \<and> freshEntry env sc entry"
  then show "var_sessionId sv = Some (sessionId (the entry))" "\<not> var_isNewSession sv"
    using assms by (simp_all add: resolve_session_def Let_def)
next
  assume "triggered \<or> \<not> freshEntry env sc entry"
  then show "var_sessionId sv = Some (randomUUID env)" "var_isNewSession sv"
    using assms by (auto simp: resolve_session_def Let_def)
next
  fix e
  assume "entry = Some e \<and>
          \<not> js_le (Num (now_at_check env - updatedAt e))
                         (js_times (effective_idleMinutes (Some sc)) 60000)"
  then have "\<not> freshEntry env sc entry"
    by (simp add: freshEntry_def)
  then show "var_sessionId sv = Some (randomUUID env)" "var_isNewSession sv"
    using assms by (auto simp: resolve_session_def Let_def)
qed

theorem session_reuse_or_mint_witness:
  "fst (resolve_session example_env example_session (msg_from ''+1999'' ''hi''))
     = \<lparr>var_sessionId = Some ''old'', var_isNewSession = False, var_bodyStripped = None\<rparr>
   \<and> var_sessionId (fst (resolve_session (example_env\<lparr>now_at_check := 70000\<rparr>) example_session
                          (msg_from ''+1999'' ''hi''))) = Some ''uuid-1''
   \<and> var_isNewSession (fst (resolve_session (example_env\<lparr>now_at_check := 70000\<rparr>) example_session
                          (msg_from ''+1999'' ''hi'')))
   \<and> var_sessionId (fst (resolve_session example_env example_session
                          (msg_from ''+1999'' ''/new''))) = Some ''uuid-1''"
proof -
  let ?stale = "example_env\<lparr>now_at_check := 70000\<rparr>"
  have e1: "loadSessionStore (readStoreFile example_env (resolveStorePath example_env (store example_session)))
              (deriveSessionKey example_env (nullish (scope example_session) PerSender)
                 (msg_from ''+1999'' ''hi'')) = Some \<lparr>sessionId = ''old'', updatedAt = 1000\<rparr>"
    by (simp add: resolver_defs example_defs)
  have e2: "loadSessionStore (readStoreFile ?stale (resolveStorePath ?stale (store example_session)))
              (deriveSessionKey ?stale (nullish (scope example_session) PerSender)
                 (msg_from ''+1999'' ''hi'')) = Some \<lparr>sessionId = ''old'', updatedAt = 1000\<rparr>"
    by (simp add: resolver_defs example_defs)
  have t1: "\<not> fst (scan_resetTriggers (effective_resetTriggers (Some example_session))
                     (trim (nullish (Body (msg_from ''+1999'' ''hi'')) [])))"
    by (simp add: resolver_defs example_defs)
  have t3: "fst (scan_resetTriggers (effective_resetTriggers (Some example_session))
                     (trim (nullish (Body (msg_from ''+1999'' ''/new'')) [])))"
    by (simp add: resolver_defs example_defs)
  have f1: "freshEntry example_env example_session (Some \<lparr>sessionId = ''old'', updatedAt = 1000\<rparr>)"
    by (simp add: resolver_defs example_defs)
  have s2: "\<not> js_le (Num (now_at_check ?stale - updatedAt \<lparr>sessionId = ''old'', updatedAt = 1000\<rparr>))
                    (js_times (effective_idleMinutes (Some example_session)) 60000)"
    by (simp add: resolver_defs example_defs)
  have a: "var_sessionId (fst (resolve_session example_env example_session (msg_from ''+1999'' ''hi'')))
             = Some ''old''
           \<and> \<not> var_isNewSession (fst (resolve_session example_env example_session (msg_from ''+1999'' ''hi'')))"
    using session_reuse_or_mint [OF refl refl refl, of example_env example_session "msg_from ''+1999'' ''hi''"]
          e1 t1 f1 by simp
  have b: "var_sessionId (fst (resolve_session ?stale example_session (msg_from ''+1999'' ''hi'')))
             = Some (randomUUID ?stale)
           \<and> var_isNewSession (fst (resolve_session ?stale example_session (msg_from ''+1999'' ''hi'')))"
    using session_reuse_or_mint [OF refl refl refl, of ?stale example_session "msg_from ''+1999'' ''hi''"]
          e2 s2 by simp
  have c: "var_sessionId (fst (resolve_session example_env example_session (msg_from ''+1999'' ''/new'')))
             = Some (randomUUID example_env)"
    using session_reuse_or_mint [OF refl refl refl, of example_env example_session "msg_from ''+1999'' ''/new''"]
          t3 by simp
  have d: "var_bodyStripped (fst (resolve_session example_env example_session (msg_from ''+1999'' ''hi''))) = None"
    by (simp add: resolver_defs example_defs Let_def)
  have "fst (resolve_session example_env example_session (msg_from ''+1999'' ''hi''))
     = \<lparr>var_sessionId = Some ''old'', var_isNewSession = False, var_bodyStripped = None\<rparr>"
    using a d by (cases "fst (resolve_session example_env example_session (msg_from ''+1999'' ''hi''))") simp
  with b c show ?thesis by (simp add: example_env_def)
qed

lemma scan_resetTriggers_first_match:
  assumes "t \<noteq> []" "b = t \<or> startsWith b (t @ '' '')"
      and "\<forall>u\<in>set pre. u = [] \<or> (b \<noteq> u \<and> \<not> startsWith b (u @ '' ''))"
  shows "scan_resetTriggers (pre @ t # post) b =
           (True, Some (if b = t then [] else trimStart (drop (length t) b)))"
  using assms by (induction pre) auto

theorem reset_trigger_empty_counterexample:
  "fst (resolve_session example_env (example_session\<lparr>resetTriggers := Some ['''']\<rparr>)
          (msg_from ''+1999'' ''''))
     = \<lparr>var_sessionId = Some ''old'', var_isNewSession = False, var_bodyStripped = None\<rparr>"
  by (simp add: resolver_defs example_defs Let_def)

text \<open>
  C3 (amended). The reset triggers are scanned in order and empty triggers are skipped.
  The first non-empty trigger that the whitespace-trimmed message body equals, or that
  the trimmed body starts with followed by a space, sets \<open>isNewSession\<close> to true and
  \<open>bodyStripped\<close> to what follows the trigger in the trimmed body with its leading
  whitespace removed (the empty string for an exact match). With
  \<open>resetTriggers = ["/new"]\<close>, the body \<open>"/new hello"\<close> gives \<open>isNewSession = true\<close> and
  \<open>bodyStripped = "hello"\<close>, and the body \<open>"/new"\<close> gives \<open>bodyStripped = ""\<close>.
\<close>

theorem reset_trigger_first_match:
  assumes "effective_resetTriggers (Some sc) = pre @ t # post"
      and "b = trim (nullish (Body ctx) [])"
      and "sv = fst (resolve_session env sc ctx)"
  shows "(t \<noteq> [] \<and> (b = t \<or> startsWith b (t @ '' ''))
            \<and> (\<forall>u\<in>set pre. u = [] \<or> (b \<noteq> u \<and> \<not> startsWith b (u @ '' ''))) \<longrightarrow>
          var_isNewSession sv
          \<and> var_bodyStripped sv = Some (if b = t then [] else trimStart (drop (length t) b)))
       \<and> (resetTriggers sc' = Some [''/new''] \<and> Body ctx' = Some ''/new hello'' \<longrightarrow>
            var_isNewSession (fst (resolve_session env sc' ctx'))
            \<and> var_bodyStripped (fst (resolve_session env sc' ctx')) = Some ''hello'')
       \<and> (resetTriggers sc' = Some [''/new''] \<and> Body ctx' = Some ''/new'' \<longrightarrow>
            var_isNewSession (fst (resolve_session env sc' ctx'))
            \<and> var_bodyStripped (fst (resolve_session env sc' ctx')) = Some '''')"
proof (intro conjI impI)
  assume h: "t \<noteq> [] \<and> (b = t \<or> startsWith b (t @ '' ''))
            \<and> (\<forall>u\<in>set pre. u = [] \<or> (b \<noteq> u \<and> \<not> startsWith b (u @ '' '')))"
  then have scan: "scan_resetTriggers (pre @ t # post) b =
           (True, Some (if b = t then [] else trimStart (drop (length t) b)))"
    by (intro scan_resetTriggers_first_match) auto
  with assms show "var_isNewSession sv"
    by (simp add: resolve_session_def Let_def)
  from scan assms
  show "var_bodyStripped sv = Some (if b = t then [] else trimStart (drop (length t) b))"
    by (simp add: resolve_session_def Let_def)
next
  assume h: "resetTriggers sc' = Some [''/new''] \<and> Body ctx' = Some ''/new hello''"
  then have "scan_resetTriggers (effective_resetTriggers (Some sc')) (trim (nullish (Body ctx') []))
               = (True, Some ''hello'')"
    by (simp add: effective_resetTriggers_def trim_def trimStart_def trimEnd_def startsWith_def
                  is_space_def)
  then show "var_isNewSession (fst (resolve_session env sc' ctx'))"
    "var_bodyStripped (fst (resolve_session env sc' ctx')) = Some ''hello''"
    by (simp_all add: resolve_session_def Let_def)
next
  assume h: "resetTriggers sc' = Some [''/new''] \<and> Body ctx' = Some ''/new''"
  then have "scan_resetTriggers (effective_resetTriggers (Some sc')) (trim (nullish (Body ctx') []))
               = (True, Some '''')"
    by (simp add: effective_resetTriggers_def trim_def trimStart_def trimEnd_def startsWith_def
                  is_space_def)
  then show "var_isNewSession (fst (resolve_session env sc' ctx'))"
    "var_bodyStripped (fst (resolve_session env sc' ctx')) = Some ''''"
    by (simp_all add: resolve_session_def Let_def)
qed

theorem reset_trigger_first_match_witness:
  "var_isNewSession (fst (resolve_session example_env
       (example_session\<lparr>resetTriggers := Some ['''', ''/reset'', ''/new'', ''/new chat'']\<rparr>)
       (msg_from ''+1999'' ''  /new   chat now '')))
   \<and> var_bodyStripped (fst (resolve_session example_env
       (example_session\<lparr>resetTriggers := Some ['''', ''/reset'', ''/new'', ''/new chat'']\<rparr>)
       (msg_from ''+1999'' ''  /new   chat now ''))) = Some ''chat now''
   \<and> var_bodyStripped (fst (resolve_session example_env example_session
       (msg_from ''+1999'' ''/new hello''))) = Some ''hello''
   \<and> var_bodyStripped (fst (resolve_session example_env example_session
       (msg_from ''+1999'' ''/new''))) = Some ''''"
proof -
  let ?sc = "example_session\<lparr>resetTriggers := Some ['''', ''/reset'', ''/new'', ''/new chat'']\<rparr>"
  let ?ctx = "msg_from ''+1999'' ''  /new   chat now ''"
  have ts: "effective_resetTriggers (Some ?sc) = ['''', ''/reset''] @ ''/new'' # [''/new chat'']"
    by (simp add: effective_resetTriggers_def example_session_def)
  have b: "trim (nullish (Body ?ctx) []) = ''/new   chat now''"
    by (simp add: msg_from_def trim_def trimStart_def trimEnd_def is_space_def)
  have h: "''/new'' \<noteq> []
      \<and> (''/new   chat now'' = ''/new'' \<or> startsWith ''/new   chat now'' (''/new'' @ '' ''))
      \<and> (\<forall>u\<in>set ['''', ''/reset'']. u = [] \<or>
            (''/new   chat now'' \<noteq> u \<and> \<not> startsWith ''/new   chat now'' (u @ '' '')))"
    by (simp add: startsWith_def)
  have r: "(if ''/new   chat now'' = ''/new'' then []
            else trimStart (drop (length ''/new'') ''/new   chat now'')) = ''chat now''"
    by (simp add: trimStart_def is_space_def)
  have first: "var_isNewSession (fst (resolve_session example_env ?sc ?ctx))
      \<and> var_bodyStripped (fst (resolve_session example_env ?sc ?ctx)) = Some ''chat now''"
    using reset_trigger_first_match [OF ts b [symmetric] refl, of example_env example_session
            "msg_from ''+1999'' ''/new hello''"] h r
    by simp
  have ex: "resetTriggers example_session = Some [''/new'']"
       "Body (msg_from ''+1999'' ''/new hello'') = Some ''/new hello''"
       "Body (msg_from ''+1999'' ''/new'') = Some ''/new''"
    by (simp_all add: example_session_def msg_from_def)
  have second: "var_bodyStripped (fst (resolve_session example_env example_session
       (msg_from ''+1999'' ''/new hello''))) = Some ''hello''"
    using reset_trigger_first_match [OF ts b [symmetric] refl, of example_env example_session
            "msg_from ''+1999'' ''/new hello''"] ex
    by simp
  have third: "var_bodyStripped (fst (resolve_session example_env example_session
       (msg_from ''+1999'' ''/new''))) = Some ''''"
    using reset_trigger_first_match [OF ts b [symmetric] refl, of example_env example_session
            "msg_from ''+1999'' ''/new''"] ex
    by simp
  from first second third show ?thesis by simp
qed

lemma session_phase_None:
  "session_phase env None ctx =
     (\<lparr>var_sessionId = None, var_isNewSession = False, var_bodyStripped = None\<rparr>, [], False)"
  by (simp add: session_phase_def)

lemma session_phase_Some:
  "session_phase env (Some sc) ctx =
     (fst (resolve_session env sc ctx),
      [LoadSessionStore (resolveStorePath env (store sc)),
       SaveSessionStore (resolveStorePath env (store sc)) (snd (resolve_session env sc ctx))],
      saveThrows env)"
  by (simp add: session_phase_def Let_def)

lemma getReply_blocked:
  assumes "blocked_by_allowFrom cfg ctx"
  shows "getReplyFromConfig env ctx opts cfg runner =
           (let sess = session_phase env (Option.bind (Option.bind (inbound cfg) reply) session) ctx
            in (if snd (snd sess) then Thrown SaveSessionStoreError else Returned None,
                fst (snd sess)))"
  using assms by (simp add: getReplyFromConfig_def Let_def)

theorem allowFrom_store_written_counterexample:
  "getReplyFromConfig example_env (msg_from ''whatsapp:+1999'' ''hi'') CallbackReturns example_cfg
     (fixed_runner (Inr (exits_with ''ok'' (Some 0))))
   = (Returned None,
      [LoadSessionStore ''/home/u/.warelay/sessions.json'',
       SaveSessionStore ''/home/u/.warelay/sessions.json''
         (example_store(''+1999'' \<mapsto> \<lparr>sessionId = ''old'', updatedAt = 2001\<rparr>))])"
  by (simp add: resolver_defs example_defs Let_def)

text \<open>
  C1 (amended). For every inbound message whose sender is absent from a configured
  non-empty allow-list, resolution neither calls \<open>onReplyStart\<close> nor runs the command, and
  it returns none unless saving the session store throws. The allow-list is checked after
  the session step: when sessions are configured, the session store is loaded and saved
  for that message before the check; when they are not, the store is not touched.
\<close>

theorem allowFrom_blocks_reply:
  assumes "Option.bind (inbound cfg) allowFrom = Some allowed"
      and "allowed \<noteq> []"
      and "strip_whatsapp (nullish (From ctx) []) \<notin> set allowed"
      and "sessionCfg = Option.bind (Option.bind (inbound cfg) reply) session"
      and "out = getReplyFromConfig env ctx opts cfg commandRunner"
  shows "(\<not> (sessionCfg \<noteq> None \<and> saveThrows env) \<longrightarrow> fst out = Returned None)
       \<and> (sessionCfg = None \<longrightarrow> snd out = [])
       \<and> (\<forall>sc. sessionCfg = Some sc \<longrightarrow>
             snd out = [LoadSessionStore (resolveStorePath env (store sc)),
                        SaveSessionStore (resolveStorePath env (store sc))
                                         (snd (resolve_session env sc ctx))])
       \<and> OnReplyStart \<notin> set (snd out)
       \<and> (\<forall>argv t. CommandRun argv t \<notin> set (snd out))"
proof -
  have blocked: "blocked_by_allowFrom cfg ctx"
    using assms(1-3) by (simp add: blocked_by_allowFrom_def)
  note out = assms(5) [unfolded getReply_blocked [OF blocked], folded assms(4)]
  show ?thesis
  proof (cases sessionCfg)
    case None
    with out show ?thesis by (simp add: session_phase_None)
  next
    case (Some sc)
    with out show ?thesis by (simp add: session_phase_Some Let_def)
  qed
qed

theorem allowFrom_blocks_reply_witness:
  "fst (getReplyFromConfig example_env (msg_from ''whatsapp:+1999'' ''hi'') CallbackReturns
          example_cfg (fixed_runner (Inr (exits_with ''ok'' (Some 0))))) = Returned None
   \<and> snd (getReplyFromConfig example_env (msg_from ''whatsapp:+1999'' ''hi'') CallbackReturns
          example_cfg (fixed_runner (Inr (exits_with ''ok'' (Some 0)))))
       = [LoadSessionStore (resolveStorePath example_env (store example_session)),
          SaveSessionStore (resolveStorePath example_env (store example_session))
            (snd (resolve_session example_env example_session (msg_from ''whatsapp:+1999'' ''hi'')))]
   \<and> getReplyFromConfig example_env (msg_from ''whatsapp:+1999'' ''hi'') CallbackReturns
        \<lparr>inbound = Some \<lparr>allowFrom = Some [''+1555''],
                           reply = Some (example_reply\<lparr>session := None\<rparr>)\<rparr>\<rparr>
        (fixed_runner (Inr (exits_with ''ok'' (Some 0)))) = (Returned None, [])"
proof -
  let ?ctx = "msg_from ''whatsapp:+1999'' ''hi''"
  let ?run = "fixed_runner (Inr (exits_with ''ok'' (Some 0)))"
  let ?cfg2 = "\<lparr>inbound = Some \<lparr>allowFrom = Some [''+1555''],
                           reply = Some (example_reply\<lparr>session := None\<rparr>)\<rparr>\<rparr>"
  have a1: "Option.bind (inbound example_cfg) allowFrom = Some [''+1555'']"
    and a1': "Option.bind (inbound ?cfg2) allowFrom = Some [''+1555'']"
    and a2: "[''+1555''] \<noteq> []"
    and a3: "strip_whatsapp (nullish (From ?ctx) []) \<notin> set [''+1555'']"
    by (simp_all add: example_defs strip_whatsapp_def startsWith_def)
  have s1: "Option.bind (Option.bind (inbound example_cfg) reply) session = Some example_session"
    and s2: "Option.bind (Option.bind (inbound ?cfg2) reply) session = None"
    and ok: "\<not> saveThrows example_env"
    by (simp_all add: example_defs)
  from allowFrom_blocks_reply [OF a1 a2 a3 refl refl, of example_env CallbackReturns ?run] s1 ok
  have first: "fst (getReplyFromConfig example_env ?ctx CallbackReturns example_cfg ?run) = Returned None
     \<and> snd (getReplyFromConfig example_env ?ctx CallbackReturns example_cfg ?run)
       = [LoadSessionStore (resolveStorePath example_env (store example_session)),
          SaveSessionStore (resolveStorePath example_env (store example_session))
            (snd (resolve_session example_env example_session ?ctx))]"
    by simp
  from allowFrom_blocks_reply [OF a1' a2 a3 refl refl, of example_env CallbackReturns ?run] s2
  have "fst (getReplyFromConfig example_env ?ctx CallbackReturns ?cfg2 ?run) = Returned None
     \<and> snd (getReplyFromConfig example_env ?ctx CallbackReturns ?cfg2 ?run) = []"
    by simp
  then have second: "getReplyFromConfig example_env ?ctx CallbackReturns ?cfg2 ?run = (Returned None, [])"
    by (simp add: prod_eq_iff)
  from first second show ?thesis by simp
qed

lemma reply_phase_ran:
  assumes "CommandRun argv t \<in> set (snd (reply_phase opts r tc isNew tm runner))"
  shows "reply_phase opts r tc isNew tm runner =
           (Returned (fst (command_reply (runner argv t))),
            fst (onReplyStart opts) @ [CommandRun argv t] @ snd (command_reply (runner argv t)))"
  using assms
  by (auto simp: reply_phase_def Let_def split: option.splits if_splits
           dest: onReplyStart_effects command_reply_effects)

lemma reply_phase_returns:
  "\<not> snd (onReplyStart opts) \<Longrightarrow> \<exists>v. fst (reply_phase opts r tc isNew tm runner) = Returned v"
  by (auto simp: reply_phase_def Let_def split: option.splits)

lemma getReply_ran:
  assumes "CommandRun argv t \<in> set (snd (getReplyFromConfig env ctx opts cfg runner))"
  shows "fst (getReplyFromConfig env ctx opts cfg runner) = Returned (fst (command_reply (runner argv t)))
       \<and> set (snd (command_reply (runner argv t)))
            \<subseteq> set (snd (getReplyFromConfig env ctx opts cfg runner))"
proof -
  let ?r = "Option.bind (inbound cfg) reply"
  let ?sess = "session_phase env (Option.bind ?r session) ctx"
  let ?rp = "reply_phase opts ?r (templatingCtx_of ?r (sessionCtx_of ctx (fst ?sess)))
               (var_isNewSession (fst ?sess)) (js_times (effective_timeoutSeconds ?r) 1000) runner"
  from assms have reached: "\<not> snd (snd ?sess)" "\<not> blocked_by_allowFrom cfg ctx"
    by (auto simp: getReplyFromConfig_def Let_def split: if_splits dest: session_phase_effects)
  then have eq: "getReplyFromConfig env ctx opts cfg runner = (fst ?rp, fst (snd ?sess) @ snd ?rp)"
    by (simp add: getReplyFromConfig_def Let_def)
  with assms have "CommandRun argv t \<in> set (snd ?rp)"
    by (auto dest: session_phase_effects)
  then have "?rp = (Returned (fst (command_reply (runner argv t))),
            fst (onReplyStart opts) @ [CommandRun argv t] @ snd (command_reply (runner argv t)))"
    by (rule reply_phase_ran)
  with eq show ?thesis by auto
qed

lemma getReply_cases:
  assumes "s = Option.bind (Option.bind (inbound cfg) reply) session"
  shows "getReplyFromConfig env ctx opts cfg runner =
     (if snd (snd (session_phase env s ctx))
        then (Thrown SaveSessionStoreError, fst (snd (session_phase env s ctx)))
      else if blocked_by_allowFrom cfg ctx
        then (Returned None, fst (snd (session_phase env s ctx)))
      else (fst (reply_phase opts (Option.bind (inbound cfg) reply)
                   (templatingCtx_of (Option.bind (inbound cfg) reply)
                      (sessionCtx_of ctx (fst (session_phase env s ctx))))
                   (var_isNewSession (fst (session_phase env s ctx)))
                   (js_times (effective_timeoutSeconds (Option.bind (inbound cfg) reply)) 1000) runner),
            fst (snd (session_phase env s ctx)) @
            snd (reply_phase opts (Option.bind (inbound cfg) reply)
                   (templatingCtx_of (Option.bind (inbound cfg) reply)
                      (sessionCtx_of ctx (fst (session_phase env s ctx))))
                   (var_isNewSession (fst (session_phase env s ctx)))
                   (js_times (effective_timeoutSeconds (Option.bind (inbound cfg) reply)) 1000) runner)))"
  unfolding assms getReplyFromConfig_def Let_def by simp

lemma command_reply_thrown:
  "command_reply (Inl err) = (None, [ConsoleError TimedOutError])
   \<or> command_reply (Inl err) = (None, [ConsoleError FailedError])"
  by (simp add: command_reply_def)

theorem save_failure_propagates_counterexample:
  "fst (getReplyFromConfig (example_env\<lparr>saveThrows := True\<rparr>) (msg_from ''whatsapp:+1555'' ''hi'')
          CallbackReturns example_cfg (fixed_runner (Inr (exits_with ''ok'' (Some 0)))))
   = Thrown SaveSessionStoreError"
  by (simp add: resolver_defs example_defs Let_def)

text \<open>
  C6 (amended). For every inbound message context and configuration: an exception thrown
  by the command runner is caught, logged with \<open>console.error\<close> and converted to a none
  result, and templating and building the argument vector throw nothing; so resolution
  returns to its caller whenever saving the session store does not throw and the
  \<open>onReplyStart\<close> callback does not throw. An exception from saving the session store is
  outside the \<open>try\<close> block: it is not caught and reaches the caller.
\<close>

theorem runner_exceptions_caught:
  assumes "sessionCfg = Option.bind (Option.bind (inbound cfg) reply) session"
      and "out = getReplyFromConfig env ctx opts cfg commandRunner"
  shows "((sessionCfg = None \<or> \<not> saveThrows env) \<and> opts \<noteq> CallbackThrows \<longrightarrow>
            (\<exists>v. fst out = Returned v))
       \<and> (commandRunner argv t = Inl err \<and> CommandRun argv t \<in> set (snd out) \<longrightarrow>
            fst out = Returned None
            \<and> (ConsoleError TimedOutError \<in> set (snd out) \<or> ConsoleError FailedError \<in> set (snd out)))
       \<and> (sessionCfg \<noteq> None \<and> saveThrows env \<longrightarrow> fst out = Thrown SaveSessionStoreError)"
proof (intro conjI impI)
  assume h: "(sessionCfg = None \<or> \<not> saveThrows env) \<and> opts \<noteq> CallbackThrows"
  then have cb: "\<not> snd (onReplyStart opts)"
    by (cases opts) auto
  from h have "\<not> snd (snd (session_phase env sessionCfg ctx))"
    by (cases sessionCfg) (auto simp: session_phase_None session_phase_Some)
  then show "\<exists>v. fst out = Returned v"
    using reply_phase_returns [OF cb]
    by (simp add: assms(2) getReply_cases [OF assms(1)])
next
  assume h: "commandRunner argv t = Inl err \<and> CommandRun argv t \<in> set (snd out)"
  then have ran: "fst out = Returned (fst (command_reply (Inl err)))"
    "set (snd (command_reply (Inl err))) \<subseteq> set (snd out)"
    using getReply_ran [of argv t env ctx opts cfg commandRunner] by (simp_all add: assms(2))
  from ran(1) show "fst out = Returned None"
    using command_reply_thrown [of err] by auto
  from ran(2) show "ConsoleError TimedOutError \<in> set (snd out) \<or> ConsoleError FailedError \<in> set (snd out)"
    using command_reply_thrown [of err] by auto
next
  assume "sessionCfg \<noteq> None \<and> saveThrows env"
  then obtain sc where "sessionCfg = Some sc" "saveThrows env" by auto
  then show "fst out = Thrown SaveSessionStoreError"
    by (simp add: assms(2) getReply_cases [OF assms(1)] session_phase_Some)
qed

theorem runner_exceptions_caught_witness:
  "getReplyFromConfig example_env (msg_from ''whatsapp:+1555'' ''hi'') CallbackReturns example_cfg
      (fixed_runner (Inl \<lparr>err_killed = None, err_signal = None\<rparr>))
     = (Returned None,
        [LoadSessionStore ''/home/u/.warelay/sessions.json'',
         SaveSessionStore ''/home/u/.warelay/sessions.json''
           (example_store(''+1555'' \<mapsto> \<lparr>sessionId = ''uuid-1'', updatedAt = 2001\<rparr>)),
         OnReplyStart,
         CommandRun [''echo'', ''--session-id'', ''uuid-1'', ''hi''] (Num 1000),
         ConsoleError FailedError])
   \<and> fst (getReplyFromConfig (example_env\<lparr>saveThrows := True\<rparr>) (msg_from ''whatsapp:+1555'' ''hi'')
            CallbackReturns example_cfg (fixed_runner (Inl \<lparr>err_killed = None, err_signal = None\<rparr>)))
       = Thrown SaveSessionStoreError"
proof -
  let ?ctx = "msg_from ''whatsapp:+1555'' ''hi''"
  let ?err = "\<lparr>err_killed = None, err_signal = None\<rparr>"
  let ?run = "fixed_runner (Inl ?err)"
  let ?argv = "[''echo'', ''--session-id'', ''uuid-1'', ''hi'']"
  have fx: "snd (getReplyFromConfig example_env ?ctx CallbackReturns example_cfg ?run) =
        [LoadSessionStore ''/home/u/.warelay/sessions.json'',
         SaveSessionStore ''/home/u/.warelay/sessions.json''
           (example_store(''+1555'' \<mapsto> \<lparr>sessionId = ''uuid-1'', updatedAt = 2001\<rparr>)),
         OnReplyStart, CommandRun ?argv (Num 1000), ConsoleError FailedError]"
    by (simp add: resolver_defs example_defs Let_def)
  have h1: "(Option.bind (Option.bind (inbound example_cfg) reply) session = None
             \<or> \<not> saveThrows example_env) \<and> CallbackReturns \<noteq> CallbackThrows"
    by (simp add: example_defs)
  have h2: "?run ?argv (Num 1000) = Inl ?err
            \<and> CommandRun ?argv (Num 1000) \<in> set (snd (getReplyFromConfig example_env ?ctx CallbackReturns example_cfg ?run))"
    by (simp add: fx) (simp add: fixed_runner_def)
  have h3: "Option.bind (Option.bind (inbound example_cfg) reply) session \<noteq> None
            \<and> saveThrows (example_env\<lparr>saveThrows := True\<rparr>)"
    by (simp add: example_defs)
  from runner_exceptions_caught [OF refl refl, where cfg = example_cfg and env = example_env
         and commandRunner = ?run and argv = ?argv and t = "Num 1000" and err = ?err and ctx = ?ctx
         and opts = CallbackReturns]
       h1 h2
  have a: "fst (getReplyFromConfig example_env ?ctx CallbackReturns example_cfg ?run) = Returned None"
    by blast
  from runner_exceptions_caught [OF refl refl, where cfg = example_cfg
         and env = "example_env\<lparr>saveThrows := True\<rparr>"
         and commandRunner = ?run and argv = ?argv and t = "Num 1000" and err = ?err and ctx = ?ctx
         and opts = CallbackReturns]
       h3
  have b: "fst (getReplyFromConfig (example_env\<lparr>saveThrows := True\<rparr>) ?ctx CallbackReturns example_cfg ?run)
             = Thrown SaveSessionStoreError"
    by blast
  from a fx b show ?thesis by (simp add: prod_eq_iff)
qed

section \<open>Properties of command mode\<close>

lemma after_kill_data:
  "list_all is_data evs \<Longrightarrow>
     after_kill evs closing out err =
       Inr \<lparr>stdout = out @ stdout_of evs, stderr = err @ stderr_of evs, code = fst closing,
            signal = snd closing, killed = True\<rparr>"
proof (induction evs arbitrary: out err)
  case Nil
  show ?case by simp
next
  case (Cons ev evs)
  then show ?case by (cases ev) simp_all
qed


lemma stdout_of_append: "stdout_of (xs @ ys) = stdout_of xs @ stdout_of ys"
  by (induction xs rule: stdout_of.induct) simp_all

lemma stderr_of_append: "stderr_of (xs @ ys) = stderr_of xs @ stderr_of ys"
  by (induction xs rule: stderr_of.induct) simp_all

lemma run_child_past:
  "list_all is_data (due_before delay evs) \<Longrightarrow>
     run_child delay evs child out err =
       after_kill (events_after_kill child) (close_after_kill child)
         (out @ stdout_of (due_before delay evs)) (err @ stderr_of (due_before delay evs))"
proof (induction evs arbitrary: out err)
  case Nil
  show ?case by (simp add: due_before_def)
next
  case (Cons timed evs)
  obtain at ev where timed: "timed = (at, ev)" by (cases timed)
  show ?case
  proof (cases "delay \<le> at")
    case True
    then show ?thesis by (simp add: timed due_before_def)
  next
    case False
    then have due: "due_before delay ((at, ev) # evs) = ev # due_before delay evs"
      by (simp add: due_before_def)
    with Cons.prems have data: "is_data ev" and rest: "list_all is_data (due_before delay evs)"
      by (simp_all add: timed)
    from data Cons.IH [OF rest] False show ?thesis
      unfolding timed due by (cases ev) simp_all
  qed
qed


lemma killed_result:
  assumes "list_all is_data (due_before (setTimeout_delay tm) (events child))"
      and "list_all is_data (events_after_kill child)" "argv \<noteq> []"
  shows "runCommandWithTimeout (\<lambda>a. child) argv tm =
           Inr \<lparr>stdout = stdout_of (due_before (setTimeout_delay tm) (events child)
                                      @ events_after_kill child),
                stderr = stderr_of (due_before (setTimeout_delay tm) (events child)
                                      @ events_after_kill child),
                code = fst (close_after_kill child), signal = snd (close_after_kill child),
                killed = True\<rparr>"
  using assms
  by (simp add: runCommandWithTimeout_def run_child_past after_kill_data stdout_of_append
                stderr_of_append)







section \<open>Properties of the poll ingestor\<close>

lemma dispatch_batch_subset:
  "set (snd (dispatch_batch st ms)) \<subseteq> set ms"
  by (induction st ms rule: dispatch_batch.induct) (auto simp: Let_def)

lemma dispatch_batch_unseen:
  "m \<in> set (snd (dispatch_batch st ms)) \<Longrightarrow> sid m \<notin> seen st"
  by (induction st ms rule: dispatch_batch.induct) (auto simp: Let_def split: if_splits)

lemma dispatch_batch_seen:
  "seen (fst (dispatch_batch st ms)) = seen st \<union> sid ` set (snd (dispatch_batch st ms))"
  by (induction st ms rule: dispatch_batch.induct) (auto simp: Let_def)

lemma dispatch_batch_distinct:
  "distinct (map sid (snd (dispatch_batch st ms)))"
proof (induction st ms rule: dispatch_batch.induct)
  case (1 st)
  show ?case by simp
next
  case (2 st m ms)
  show ?case
  proof (cases "sid m \<in> seen st")
    case True
    with 2 show ?thesis by simp
  next
    case False
    let ?st = "\<lparr>since = updateSince (since st) (dateCreated m), seen = insert (sid m) (seen st)\<rparr>"
    have "sid m \<notin> sid ` set (snd (dispatch_batch ?st ms))"
    proof
      assume "sid m \<in> sid ` set (snd (dispatch_batch ?st ms))"
      then obtain x where x: "x \<in> set (snd (dispatch_batch ?st ms))" and same: "sid x = sid m"
        by auto
      from dispatch_batch_unseen [OF x] have "sid x \<notin> seen ?st" .
      with same show False by simp
    qed
    with False 2 show ?thesis by (simp add: Let_def)
  qed
qed

lemma dispatch_batch_sorted:
  "sorted (map f ms) \<Longrightarrow> sorted (map f (snd (dispatch_batch st ms)))"
proof (induction st ms rule: dispatch_batch.induct)
  case (1 st)
  show ?case by simp
next
  case (2 st m ms)
  let ?st = "\<lparr>since = updateSince (since st) (dateCreated m), seen = insert (sid m) (seen st)\<rparr>"
  from "2.prems" have tl: "sorted (map f ms)" and hd: "\<forall>x\<in>set ms. f m \<le> f x"
    by auto
  show ?case
  proof (cases "sid m \<in> seen st")
    case True
    with 2 tl show ?thesis by simp
  next
    case False
    have "\<forall>x\<in>set (snd (dispatch_batch ?st ms)). f m \<le> f x"
      using hd dispatch_batch_subset [of ?st ms] by auto
    with False "2.IH"(2) [OF False refl tl] show ?thesis
      by (simp add: Let_def)
  qed
qed

lemma dispatch_batch_since:
  "since st \<le> since (fst (dispatch_batch st ms))"
proof (induction st ms rule: dispatch_batch.induct)
  case (1 st)
  show ?case by simp
next
  case (2 st m ms)
  show ?case
  proof (cases "sid m \<in> seen st")
    case True
    with 2 show ?thesis by simp
  next
    case False
    have "since st \<le> updateSince (since st) (dateCreated m)"
      by (simp add: updateSince_def split: option.splits)
    with False "2.IH"(2) [OF False refl] show ?thesis
      by (simp add: Let_def)
  qed
qed

lemma poll_once_sorted:
  "sorted (map created_ms (snd (poll_once st listed)))"
  by (cases listed) (simp_all add: poll_once_def dispatch_batch_sorted)

lemma poll_once_distinct:
  "distinct (map sid (snd (poll_once st listed)))"
  by (cases listed) (simp_all add: poll_once_def dispatch_batch_distinct)

lemma poll_once_unseen:
  "m \<in> set (snd (poll_once st listed)) \<Longrightarrow> sid m \<notin> seen st"
  by (cases listed) (auto simp: poll_once_def dest: dispatch_batch_unseen)

lemma poll_once_seen:
  "seen (fst (poll_once st listed)) = seen st \<union> sid ` set (snd (poll_once st listed))"
  by (cases listed) (simp_all add: poll_once_def dispatch_batch_seen)

lemma poll_once_since:
  "since st \<le> since (fst (poll_once st listed))"
  by (cases listed) (simp_all add: poll_once_def dispatch_batch_since)

lemma monitor_loop_sorted:
  "batch \<in> set (snd (monitor_loop env maxIterations turns iterations st)) \<Longrightarrow>
     sorted (map created_ms batch)"
  by (induction env maxIterations turns iterations st rule: monitor_loop.induct)
     (auto simp: Let_def poll_once_sorted split: if_splits)

lemma monitor_loop_seen:
  "seen (fst (monitor_loop env maxIterations turns iterations st)) =
     seen st \<union> sid ` set (concat (snd (monitor_loop env maxIterations turns iterations st)))"
proof (induction env maxIterations turns iterations st rule: monitor_loop.induct)
  case (1 env maxIterations iterations st)
  show ?case by simp
next
  case (2 env maxIterations turns iterations st)
  show ?case
  proof (cases "\<not> sigint_before env iterations
         \<and> (case maxIterations of None \<Rightarrow> True | Some n \<Rightarrow> int iterations < n)")
    case False
    then show ?thesis by auto
  next
    case True
    from "2.IH" [OF True refl] True show ?thesis
      by (simp add: Let_def poll_once_seen image_Un Un_assoc)
  qed
qed

lemma monitor_loop_distinct:
  "distinct (map sid (concat (snd (monitor_loop env maxIterations turns iterations st))))
   \<and> (\<forall>m\<in>set (concat (snd (monitor_loop env maxIterations turns iterations st))). sid m \<notin> seen st)"
proof (induction env maxIterations turns iterations st rule: monitor_loop.induct)
  case (1 env maxIterations iterations st)
  show ?case by simp
next
  case (2 env maxIterations turns iterations st)
  show ?case
  proof (cases "\<not> sigint_before env iterations
         \<and> (case maxIterations of None \<Rightarrow> True | Some n \<Rightarrow> int iterations < n)")
    case False
    then show ?thesis by auto
  next
    case True
    let ?polled = "poll_once st (messages_list env iterations (since st))"
    let ?later = "monitor_loop env maxIterations turns (Suc iterations) (fst ?polled)"
    from "2.IH" [OF True refl]
    have d: "distinct (map sid (concat (snd ?later)))"
      and fresh: "\<forall>m\<in>set (concat (snd ?later)). sid m \<notin> seen (fst ?polled)"
      by auto
    have later_new: "\<forall>m\<in>set (concat (snd ?later)). sid m \<notin> seen st \<and> sid m \<notin> sid ` set (snd ?polled)"
      using fresh by (simp add: poll_once_seen)
    have now_new: "\<forall>m\<in>set (snd ?polled). sid m \<notin> seen st"
      using poll_once_unseen by blast
    have disj: "sid ` set (snd ?polled) \<inter> sid ` set (concat (snd ?later)) = {}"
    proof (rule ccontr)
      assume "sid ` set (snd ?polled) \<inter> sid ` set (concat (snd ?later)) \<noteq> {}"
      then obtain k where k1: "k \<in> sid ` set (snd ?polled)"
        and k2: "k \<in> sid ` set (concat (snd ?later))"
        by blast
      from k2 obtain m where m: "m \<in> set (concat (snd ?later))" and km: "k = sid m"
        by blast
      from later_new m have "sid m \<notin> sid ` set (snd ?polled)"
        by blast
      with k1 km show False by simp
    qed
    have "distinct (map sid (snd ?polled @ concat (snd ?later)))"
      using poll_once_distinct [of st "messages_list env iterations (since st)"] d disj
      by (simp add: distinct_append)
    with True later_new now_new show ?thesis
      by (auto simp: Let_def)
  qed
qed

text \<open>
  C7. In the poll ingestor, however long the loop is followed and whatever the listings
  return: within every fetched batch the messages are dispatched in non-decreasing order of
  creation time (the comparator's key, 0 for a message without a date); no message id is
  dispatched twice over the whole run, even when a later listing returns it again; and an
  id already in the dedup window is not dispatched.
\<close>

theorem poll_dispatch_ordered_once:
  "(\<forall>batch\<in>set (snd (monitor_loop env maxIterations turns iterations st)).
      sorted (map created_ms batch))
   \<and> distinct (map sid (concat (snd (monitor_loop env maxIterations turns iterations st))))
   \<and> (\<forall>m\<in>set (concat (snd (monitor_loop env maxIterations turns iterations st))).
        sid m \<notin> seen st)
   \<and> (\<forall>batch\<in>set (snd (monitorTwilio env date_now lookbackMinutes maxIterations turns)).
        sorted (map created_ms batch))
   \<and> distinct (map sid (concat (snd (monitorTwilio env date_now lookbackMinutes maxIterations turns))))"
proof (intro conjI ballI)
  fix batch
  assume "batch \<in> set (snd (monitor_loop env maxIterations turns iterations st))"
  then show "sorted (map created_ms batch)"
    by (rule monitor_loop_sorted)
next
  show "distinct (map sid (concat (snd (monitor_loop env maxIterations turns iterations st))))"
    using monitor_loop_distinct by blast
next
  fix m
  assume "m \<in> set (concat (snd (monitor_loop env maxIterations turns iterations st)))"
  then show "sid m \<notin> seen st"
    using monitor_loop_distinct by blast
next
  fix batch
  assume "batch \<in> set (snd (monitorTwilio env date_now lookbackMinutes maxIterations turns))"
  then show "sorted (map created_ms batch)"
    unfolding monitorTwilio_def by (rule monitor_loop_sorted)
next
  show "distinct (map sid (concat (snd (monitorTwilio env date_now lookbackMinutes maxIterations turns))))"
    unfolding monitorTwilio_def using monitor_loop_distinct by blast
qed

theorem poll_dispatch_ordered_once_witness:
  "map (map sid) (snd (monitorTwilio example_poll 1000 1 None 3)) = [[''SM1'', ''SM2''], [], [''SM3'']]
   \<and> distinct (map sid (concat (snd (monitorTwilio example_poll 1000 1 None 3))))
   \<and> sorted (map created_ms (hd (snd (monitorTwilio example_poll 1000 1 None 3))))"
proof -
  have run: "map (map sid) (snd (monitorTwilio example_poll 1000 1 None 3))
               = [[''SM1'', ''SM2''], [], [''SM3'']]"
    by (simp add: monitorTwilio_def example_poll_def inbound_msg_def poll_once_def created_ms_def
                  updateSince_def Let_def eval_nat_numeral)
  then have "snd (monitorTwilio example_poll 1000 1 None 3) \<noteq> []"
    by auto
  then have first: "hd (snd (monitorTwilio example_poll 1000 1 None 3))
                      \<in> set (snd (monitorTwilio example_poll 1000 1 None 3))"
    by simp
  from poll_dispatch_ordered_once [of example_poll None 3 0 "\<lparr>since = 0, seen = {}\<rparr>" 1000 1] first
  have "distinct (map sid (concat (snd (monitorTwilio example_poll 1000 1 None 3))))
        \<and> sorted (map created_ms (hd (snd (monitorTwilio example_poll 1000 1 None 3))))"
    by blast
  with run show ?thesis by simp
qed

section \<open>Properties of webhook bring-up\<close>

lemmas webhook_defs =
  updateWebhook_def strategy_order_def sender_request_def sdk_helper_def incoming_number_def
  setMessagingServiceWebhook_def storedUrl_def

lemma first_to_return_success:
  assumes "order = pre @ s # post" "\<forall>s'\<in>set pre. fst (run s') = None" "fst (run s) = Some u"
  shows "first_to_return run order calls =
           (WebhookSet s u, calls @ concat (map (\<lambda>s'. snd (run s')) (pre @ [s])))"
  using assms by (induction pre arbitrary: order calls) auto

lemma first_to_return_failure:
  assumes "\<forall>s'\<in>set order. fst (run s') = None"
  shows "first_to_return run order calls =
           (Exit 1, calls @ concat (map (\<lambda>s'. snd (run s')) order))"
  using assms by (induction order arbitrary: calls) auto

lemma truthy_SomeD: "truthy x \<Longrightarrow> \<exists>y. x = Some y"
  by (cases x) auto

lemma sender_request_returns:
  "fst (sender_request s written fetched) \<noteq> None \<longleftrightarrow>
     (\<exists>f. written = Resolves () \<and> fetched = Resolves f \<and> truthy (storedUrl f))"
  by (auto simp: sender_request_def split: response.splits dest: truthy_SomeD)

theorem readback_mismatch_counterexample:
  "updateWebhook stale_api ''https://new.example/hook''
     = (WebhookSet RawJson ''https://old.example/hook'', [Write RawJson, ReadBack RawJson])"
  by (simp add: webhook_defs stale_api_def)

text \<open>
  C8 (amended). Webhook bring-up tries five strategies in a fixed order: the raw JSON
  request, the form-encoded request, the helper of the client library, the incoming phone
  number and the messaging service. The sequence stops at the first strategy that returns:
  the calls made are those of the strategies before it, which all failed, and its own, and
  no later strategy is called. The first two strategies write, read the sender back, and
  return exactly when both calls succeed and the sender read back holds a non-empty
  callback or fallback URL, whichever URL it is; so when the write of strategy 1 succeeds
  and its read-back holds no URL, the next strategy is attempted. The helper and the
  messaging service write and read back, and return when neither call fails; the incoming
  phone number strategy writes and does not read back. When every strategy fails the
  operation ends with \<open>runtime.exit(1)\<close>.
\<close>

theorem webhook_first_strategy_to_return:
  "(strategy_order = pre @ s # post \<and> (\<forall>s'\<in>set pre. fst (attempt api url s') = None)
      \<and> fst (attempt api url s) = Some u \<longrightarrow>
      updateWebhook api url =
        (WebhookSet s u, concat (map (\<lambda>s'. snd (attempt api url s')) (pre @ [s]))))
   \<and> ((\<forall>s'. fst (attempt api url s') = None) \<longrightarrow>
        updateWebhook api url =
          (Exit 1, concat (map (\<lambda>s'. snd (attempt api url s')) strategy_order)))
   \<and> (fst (updateWebhook api url) = Exit 1 \<longleftrightarrow> (\<forall>s'. fst (attempt api url s') = None))
   \<and> (fst (attempt api url RawJson) \<noteq> None \<longleftrightarrow>
        (\<exists>f. request_json api = Resolves () \<and> fetch_after_json api = Resolves f
             \<and> truthy (storedUrl f)))
   \<and> (fst (attempt api url FormEncoded) \<noteq> None \<longleftrightarrow>
        (\<exists>f. request_form api = Resolves () \<and> fetch_after_form api = Resolves f
             \<and> truthy (storedUrl f)))
   \<and> (fst (attempt api url SdkHelper) \<noteq> None \<longleftrightarrow>
        has_channelsSenders api \<and> helper_update api = Resolves ()
        \<and> fetch_after_helper api \<noteq> Rejects)
   \<and> (fst (attempt api url IncomingNumber) \<noteq> None \<longleftrightarrow>
        truthy (findIncomingNumberSid api) \<and> phone_update api = Resolves ())
   \<and> ReadBack IncomingNumber \<notin> set (snd (updateWebhook api url))
   \<and> (fst (attempt api url MessagingService) \<noteq> None \<longleftrightarrow>
        truthy (findMessagingServiceSid api) \<and> service_update api = Resolves ()
        \<and> service_fetch api \<noteq> Rejects)
   \<and> (request_json api = Resolves () \<and> fetch_after_json api = Resolves f
        \<and> \<not> truthy (storedUrl f) \<longrightarrow>
        take 3 (snd (updateWebhook api url)) = [Write RawJson, ReadBack RawJson, Write FormEncoded])"
proof (intro conjI)
  show "strategy_order = pre @ s # post \<and> (\<forall>s'\<in>set pre. fst (attempt api url s') = None)
      \<and> fst (attempt api url s) = Some u \<longrightarrow>
      updateWebhook api url =
        (WebhookSet s u, concat (map (\<lambda>s'. snd (attempt api url s')) (pre @ [s])))"
    unfolding updateWebhook_def
    using first_to_return_success [of strategy_order pre s post "attempt api url" u "[]"]
    by simp
next
  show "(\<forall>s'. fst (attempt api url s') = None) \<longrightarrow>
        updateWebhook api url =
          (Exit 1, concat (map (\<lambda>s'. snd (attempt api url s')) strategy_order))"
    unfolding updateWebhook_def
    using first_to_return_failure [of strategy_order "attempt api url" "[]"]
    by simp
next
  have all: "(\<forall>s'. fst (attempt api url s') = None) \<longleftrightarrow>
             (\<forall>s'\<in>set strategy_order. fst (attempt api url s') = None)"
  proof
    assume r: "\<forall>s'\<in>set strategy_order. fst (attempt api url s') = None"
    show "\<forall>s'. fst (attempt api url s') = None"
    proof
      fix s' show "fst (attempt api url s') = None"
        using r by (cases s') (simp_all add: strategy_order_def)
    qed
  qed simp
  show "fst (updateWebhook api url) = Exit 1 \<longleftrightarrow> (\<forall>s'. fst (attempt api url s') = None)"
    unfolding all updateWebhook_def strategy_order_def
    by (simp split: option.splits)
next
  show "fst (attempt api url RawJson) \<noteq> None \<longleftrightarrow>
        (\<exists>f. request_json api = Resolves () \<and> fetch_after_json api = Resolves f
             \<and> truthy (storedUrl f))"
    unfolding attempt.simps by (rule sender_request_returns)
next
  show "fst (attempt api url FormEncoded) \<noteq> None \<longleftrightarrow>
        (\<exists>f. request_form api = Resolves () \<and> fetch_after_form api = Resolves f
             \<and> truthy (storedUrl f))"
    unfolding attempt.simps by (rule sender_request_returns)
next
  show "fst (attempt api url SdkHelper) \<noteq> None \<longleftrightarrow>
        has_channelsSenders api \<and> helper_update api = Resolves ()
        \<and> fetch_after_helper api \<noteq> Rejects"
    by (auto simp: sdk_helper_def split: response.splits)
next
  show "fst (attempt api url IncomingNumber) \<noteq> None \<longleftrightarrow>
        truthy (findIncomingNumberSid api) \<and> phone_update api = Resolves ()"
    by (auto simp: incoming_number_def split: response.splits)
next
  show "fst (attempt api url MessagingService) \<noteq> None \<longleftrightarrow>
        truthy (findMessagingServiceSid api) \<and> service_update api = Resolves ()
        \<and> service_fetch api \<noteq> Rejects"
    by (auto simp: setMessagingServiceWebhook_def split: response.splits)
next
  have "ReadBack IncomingNumber \<notin> set (snd (attempt api url s'))" for s'
    by (cases s')
       (auto simp: sender_request_def sdk_helper_def incoming_number_def
                   setMessagingServiceWebhook_def split: response.splits)
  then have "ReadBack IncomingNumber \<notin> set calls \<Longrightarrow>
        ReadBack IncomingNumber \<notin> set (snd (first_to_return (attempt api url) order calls))"
    for order calls
    by (induction order arbitrary: calls) (auto split: option.splits)
  then show "ReadBack IncomingNumber \<notin> set (snd (updateWebhook api url))"
    by (simp add: updateWebhook_def)
next
  show "request_json api = Resolves () \<and> fetch_after_json api = Resolves f
        \<and> \<not> truthy (storedUrl f) \<longrightarrow>
        take 3 (snd (updateWebhook api url)) = [Write RawJson, ReadBack RawJson, Write FormEncoded]"
    by (auto simp: updateWebhook_def strategy_order_def sender_request_def
             split: option.splits response.splits)
qed

theorem webhook_first_strategy_to_return_witness:
  "updateWebhook (stale_api\<lparr>fetch_after_json := Resolves None\<rparr>) ''https://new.example/hook''
     = (WebhookSet FormEncoded ''https://new.example/hook'',
        [Write RawJson, ReadBack RawJson, Write FormEncoded, ReadBack FormEncoded])
   \<and> updateWebhook failing_api ''https://new.example/hook''
     = (Exit 1,
        [Write RawJson, ReadBack RawJson, Write FormEncoded, Write IncomingNumber,
         Write MessagingService, ReadBack MessagingService])"
proof -
  let ?api = "stale_api\<lparr>fetch_after_json := Resolves None\<rparr>"
  let ?url = "''https://new.example/hook''"
  have split: "strategy_order = [RawJson] @ FormEncoded # [SdkHelper, IncomingNumber, MessagingService]"
    by (simp add: strategy_order_def)
  have before: "\<forall>s'\<in>set [RawJson]. fst (attempt ?api ?url s') = None"
    by (simp add: stale_api_def sender_request_def storedUrl_def)
  have here: "fst (attempt ?api ?url FormEncoded) = Some ?url"
    by (simp add: stale_api_def sender_request_def storedUrl_def)
  have calls: "concat (map (\<lambda>s'. snd (attempt ?api ?url s')) ([RawJson] @ [FormEncoded]))
                 = [Write RawJson, ReadBack RawJson, Write FormEncoded, ReadBack FormEncoded]"
    by (simp add: stale_api_def sender_request_def storedUrl_def)
  have none: "\<forall>s'. fst (attempt failing_api ?url s') = None"
  proof
    fix s' show "fst (attempt failing_api ?url s') = None"
      by (cases s') (simp_all add: failing_api_def webhook_defs)
  qed
  have calls': "concat (map (\<lambda>s'. snd (attempt failing_api ?url s')) strategy_order)
                 = [Write RawJson, ReadBack RawJson, Write FormEncoded, Write IncomingNumber,
                    Write MessagingService, ReadBack MessagingService]"
    by (simp add: failing_api_def webhook_defs)
  from webhook_first_strategy_to_return
         [where pre = "[RawJson]" and s = FormEncoded
            and post = "[SdkHelper, IncomingNumber, MessagingService]"
            and api = ?api and url = ?url and u = ?url]
       split before here
  have a: "updateWebhook ?api ?url =
        (WebhookSet FormEncoded ?url,
         concat (map (\<lambda>s'. snd (attempt ?api ?url s')) ([RawJson] @ [FormEncoded])))"
    by blast
  from webhook_first_strategy_to_return
         [where pre = "[RawJson]" and s = FormEncoded
            and post = "[SdkHelper, IncomingNumber, MessagingService]"
            and api = failing_api and url = ?url and u = ?url]
       none
  have b: "updateWebhook failing_api ?url =
          (Exit 1, concat (map (\<lambda>s'. snd (attempt failing_api ?url s')) strategy_order))"
    by blast
  from a b show ?thesis
    unfolding calls calls' by simp
qed


end
